theory Spec2Isabelle
  imports Complex_Main "HOL-Library.Word" "HOL-Library.Multiset"
begin

unbundle bit_operations_syntax

section \<open>Reduce functions on array elements\<close>

text \<open>
  The element type of the reduce functions is \<^verbatim>\<open>typedef npy_int _R_TYPE_\<close>: a C \<^verbatim>\<open>int\<close>,
  32 bits, read as two's complement by \<open>sint\<close>. Every scalar reducer reads
  \<^verbatim>\<open>in1 = *ip1\<close> and \<^verbatim>\<open>in2 = *ip2\<close> and writes one value back to \<^verbatim>\<open>*ip1\<close>; the
  definitions below give the value written. Addition and multiplication wrap around.
\<close>

type_synonym npy_int = "32 word"

definition scalar_replace :: "npy_int \<Rightarrow> npy_int \<Rightarrow> npy_int" where
  "scalar_replace in1 in2 = in2"

definition scalar_add :: "npy_int \<Rightarrow> npy_int \<Rightarrow> npy_int" where
  "scalar_add in1 in2 = in1 + in2"

definition scalar_multiply :: "npy_int \<Rightarrow> npy_int \<Rightarrow> npy_int" where
  "scalar_multiply in1 in2 = in1 * in2"

definition scalar_maximum :: "npy_int \<Rightarrow> npy_int \<Rightarrow> npy_int" where
  "scalar_maximum in1 in2 = (if sint in2 \<le> sint in1 then in1 else in2)"

definition scalar_minimum :: "npy_int \<Rightarrow> npy_int \<Rightarrow> npy_int" where
  "scalar_minimum in1 in2 = (if sint in1 < sint in2 then in1 else in2)"

definition scalar_and :: "npy_int \<Rightarrow> npy_int \<Rightarrow> npy_int" where
  "scalar_and in1 in2 = in1 AND in2"

definition scalar_or :: "npy_int \<Rightarrow> npy_int \<Rightarrow> npy_int" where
  "scalar_or in1 in2 = in1 OR in2"

definition scalar_xor :: "npy_int \<Rightarrow> npy_int \<Rightarrow> npy_int" where
  "scalar_xor in1 in2 = in1 XOR in2"

text \<open>
  \<^verbatim>\<open>BINARY_DENSE_LOOP\<close>: \<^verbatim>\<open>for (i = 0; i < n; i++, ip1 += sp, ip2 += sp)\<close> over two
  contiguous arrays of \<^verbatim>\<open>_R_TYPE_\<close>, the body writing element \<open>i\<close> of the first array.
  The arrays are lists; a step beyond the end of either array is an access out of
  bounds, \<open>None\<close> here.
\<close>

function BINARY_DENSE_LOOP ::
  "(npy_int \<Rightarrow> npy_int \<Rightarrow> npy_int) \<Rightarrow> nat \<Rightarrow> nat \<Rightarrow> npy_int list \<Rightarrow> npy_int list
    \<Rightarrow> npy_int list option" where
  "BINARY_DENSE_LOOP body i n a1 a2 =
     (if i < n then
        (if i < length a1 \<and> i < length a2
         then BINARY_DENSE_LOOP body (i + 1) n (a1[i := body (a1 ! i) (a2 ! i)]) a2
         else None)
      else Some a1)"
  by pat_completeness auto
termination
  by (relation "measure (\<lambda>(body, i, n, a1, a2). n - i)") auto

definition dense_replace :: "npy_int list \<Rightarrow> npy_int list \<Rightarrow> nat \<Rightarrow> npy_int list option" where
  "dense_replace a1 a2 n = BINARY_DENSE_LOOP (\<lambda>in1 in2. in2) 0 n a1 a2"

definition dense_add :: "npy_int list \<Rightarrow> npy_int list \<Rightarrow> nat \<Rightarrow> npy_int list option" where
  "dense_add a1 a2 n = BINARY_DENSE_LOOP (\<lambda>in1 in2. in1 + in2) 0 n a1 a2"

definition dense_multiply :: "npy_int list \<Rightarrow> npy_int list \<Rightarrow> nat \<Rightarrow> npy_int list option" where
  "dense_multiply a1 a2 n = BINARY_DENSE_LOOP (\<lambda>in1 in2. in1 * in2) 0 n a1 a2"

text \<open>\<^verbatim>\<open>and\<close> and \<^verbatim>\<open>or\<close> are the logical operators of C++: the result is 0 or 1.\<close>

definition dense_and :: "npy_int list \<Rightarrow> npy_int list \<Rightarrow> nat \<Rightarrow> npy_int list option" where
  "dense_and a1 a2 n =
     BINARY_DENSE_LOOP (\<lambda>in1 in2. if in1 \<noteq> 0 \<and> in2 \<noteq> 0 then 1 else 0) 0 n a1 a2"

definition dense_or :: "npy_int list \<Rightarrow> npy_int list \<Rightarrow> nat \<Rightarrow> npy_int list option" where
  "dense_or a1 a2 n =
     BINARY_DENSE_LOOP (\<lambda>in1 in2. if in1 \<noteq> 0 \<or> in2 \<noteq> 0 then 1 else 0) 0 n a1 a2"

definition dense_xor :: "npy_int list \<Rightarrow> npy_int list \<Rightarrow> nat \<Rightarrow> npy_int list option" where
  "dense_xor a1 a2 n = BINARY_DENSE_LOOP (\<lambda>in1 in2. in1 XOR in2) 0 n a1 a2"

definition dense_maximum :: "npy_int list \<Rightarrow> npy_int list \<Rightarrow> nat \<Rightarrow> npy_int list option" where
  "dense_maximum a1 a2 n =
     BINARY_DENSE_LOOP (\<lambda>in1 in2. if sint in2 \<le> sint in1 then in1 else in2) 0 n a1 a2"

definition dense_minimum :: "npy_int list \<Rightarrow> npy_int list \<Rightarrow> nat \<Rightarrow> npy_int list option" where
  "dense_minimum a1 a2 n =
     BINARY_DENSE_LOOP (\<lambda>in1 in2. if sint in1 \<le> sint in2 then in1 else in2) 0 n a1 a2"

section \<open>The Modulo sharder\<close>

text \<open>
  \<^verbatim>\<open>boost::hash_value(k) % num_shards\<close>: the hash is a \<^verbatim>\<open>size_t\<close> (64 bits), and
  \<^verbatim>\<open>num_shards\<close>, an \<^verbatim>\<open>int\<close>, is converted to \<^verbatim>\<open>size_t\<close> (sign extension) before the
  remainder is taken. The hash function of the key type is a parameter. A remainder by
  zero is undefined in C++, \<open>None\<close> here.
\<close>

definition shard_for_key :: "('k \<Rightarrow> 64 word) \<Rightarrow> 'k \<Rightarrow> 32 word \<Rightarrow> 64 word option" where
  "shard_for_key hash_value k num_shards =
     (if (scast num_shards :: 64 word) = 0 then None
      else Some (hash_value k mod scast num_shards))"

section \<open>Shards, tables and server-side iterators\<close>

text \<open>
  How a handler can end without a response: a failed \<^verbatim>\<open>CHECK\<close>, the fatal log of the
  routing test, a dereferenced null pointer, a shard index outside the table, a read
  beyond the end of a vector, an exception that no handler catches, a kernel id that the
  registry does not know.
\<close>

datatype fatal =
  CheckFailed | RoutingViolation | NullPointer | InvalidShard | OutOfRange
  | UncaughtException | UnknownKernel

text \<open>
  Modelled from the spec: the \<^verbatim>\<open>Shard\<close>, \<^verbatim>\<open>Table\<close> and \<^verbatim>\<open>TableIterator\<close> classes of
  \<^verbatim>\<open>spartan/table.h\<close>, which the worker and the remote iterator call and whose
  declarations are missing. A shard is an ordered mapping from keys to values, kept as
  the list of its entries in iteration order, each key once. A table has an id, the owner
  of every shard (\<^verbatim>\<open>ShardInfo\<close>), the shard slots and the reducer plug-in, which may be
  null.
\<close>

type_synonym ('k, 'v) Shard = "('k \<times> 'v) list"

record ('k, 'v) Table =
  table_id :: int
  shard_info :: "int list"
  shards :: "('k, 'v) Shard list"
  reducer :: "('v \<Rightarrow> 'v \<Rightarrow> 'v) option"

definition valid_shard :: "('k, 'v) Table \<Rightarrow> int \<Rightarrow> bool" where
  "valid_shard t s = (0 \<le> s \<and> nat s < length (shards t) \<and> nat s < length (shard_info t))"

text \<open>
  Modelled from the spec: \<^verbatim>\<open>Table::worker_for_shard\<close>, which "consults the routing
  table".
\<close>

definition Table_worker_for_shard :: "('k, 'v) Table \<Rightarrow> int \<Rightarrow> fatal + int" where
  "Table_worker_for_shard t s =
     (if valid_shard t s then Inr (shard_info t ! nat s) else Inl InvalidShard)"

text \<open>
  Modelled from the spec: \<^verbatim>\<open>Table::contains(shard, key)\<close> and
  \<^verbatim>\<open>Table::get(shard, key)\<close>, the shard operations \<open>contains(key) \<rightarrow> bool\<close> and
  \<open>get(key) \<rightarrow> value | missing\<close> on the addressed shard.
\<close>

definition Table_contains :: "('k, 'v) Table \<Rightarrow> int \<Rightarrow> 'k \<Rightarrow> fatal + bool" where
  "Table_contains t s k =
     (if valid_shard t s then Inr (map_of (shards t ! nat s) k \<noteq> None) else Inl InvalidShard)"

definition Table_get :: "('k, 'v) Table \<Rightarrow> int \<Rightarrow> 'k \<Rightarrow> fatal + 'v" where
  "Table_get t s k =
     (if valid_shard t s
      then (case map_of (shards t ! nat s) k of None \<Rightarrow> Inl OutOfRange | Some v \<Rightarrow> Inr v)
      else Inl InvalidShard)"

text \<open>
  Modelled from the spec: the merge that an incoming \<^verbatim>\<open>put\<close> performs for one entry,
  \<open>apply_remote(key, v)\<close>: "unconditional merge on an owned shard: store
  \<open>reducer(old, v)\<close> if present else \<open>v\<close>. This is the entry point used by incoming
  \<open>put\<close> RPCs". A null reducer replaces ("reducer = replace"). A new key goes to the
  end of the shard, a merged value stays at the place of its key. In the source the put
  handler reaches it as \<^verbatim>\<open>Table::update(shard, key, value)\<close>, whose body is missing.
\<close>

definition merge_value :: "('v \<Rightarrow> 'v \<Rightarrow> 'v) option \<Rightarrow> 'v \<Rightarrow> 'v \<Rightarrow> 'v" where
  "merge_value r old v = (case r of None \<Rightarrow> v | Some f \<Rightarrow> f old v)"

fun store_at :: "'k \<Rightarrow> 'v \<Rightarrow> ('k, 'v) Shard \<Rightarrow> ('k, 'v) Shard" where
  "store_at k v [] = []"
| "store_at k v ((k', v') # es) = (if k' = k then (k, v) # es else (k', v') # store_at k v es)"

definition apply_remote ::
  "('v \<Rightarrow> 'v \<Rightarrow> 'v) option \<Rightarrow> ('k, 'v) Shard \<Rightarrow> 'k \<Rightarrow> 'v \<Rightarrow> ('k, 'v) Shard" where
  "apply_remote r sh k v =
     (case map_of sh k of
        None \<Rightarrow> sh @ [(k, v)]
      | Some old \<Rightarrow> store_at k (merge_value r old v) sh)"

definition Table_update :: "('k, 'v) Table \<Rightarrow> int \<Rightarrow> 'k \<Rightarrow> 'v \<Rightarrow> fatal + ('k, 'v) Table" where
  "Table_update t s k v =
     (if valid_shard t s
      then Inr (t\<lparr>shards := (shards t)[nat s := apply_remote (reducer t) (shards t ! nat s) k v]\<rparr>)
      else Inl InvalidShard)"

text \<open>
  Modelled from the spec: \<^verbatim>\<open>TableIterator\<close>, the cursor behind both the local iterator
  and a server-side iterator handle ("\<open>shard_ref\<close>, internal cursor"), with
  \<open>done()\<close>, \<open>key()\<close>, \<open>value()\<close>, \<open>next()\<close> traversing the shard's ordered mapping.
  The cursor is the list of the entries it has not passed yet; the shard is not mutated
  while it is iterated (quiescence).
\<close>

record ('k, 'v) TableIterator =
  it_table :: int
  it_shard :: int
  it_rest :: "('k \<times> 'v) list"

definition TableIterator_done :: "('k, 'v) TableIterator \<Rightarrow> bool" where
  "TableIterator_done it = (it_rest it = [])"

definition TableIterator_key :: "('k, 'v) TableIterator \<Rightarrow> 'k" where
  "TableIterator_key it = fst (hd (it_rest it))"

definition TableIterator_value :: "('k, 'v) TableIterator \<Rightarrow> 'v" where
  "TableIterator_value it = snd (hd (it_rest it))"

definition TableIterator_next :: "('k, 'v) TableIterator \<Rightarrow> ('k, 'v) TableIterator" where
  "TableIterator_next it = it\<lparr>it_rest := tl (it_rest it)\<rparr>"

definition Table_get_iterator :: "('k, 'v) Table \<Rightarrow> int \<Rightarrow> fatal + ('k, 'v) TableIterator" where
  "Table_get_iterator t s =
     (if valid_shard t s
      then Inr \<lparr>it_table = table_id t, it_shard = s, it_rest = shards t ! nat s\<rparr>
      else Inl InvalidShard)"

text \<open>
  The sequence a local iterator shows to the loop
  \<^verbatim>\<open>for (; !it->done(); it->next()) use(it->key(), it->value())\<close>.
\<close>

function LocalIterator_observed ::
  "('k, 'v) TableIterator \<Rightarrow> ('k \<times> 'v) list \<Rightarrow> ('k \<times> 'v) list" where
  "LocalIterator_observed it seen =
     (if TableIterator_done it then seen
      else LocalIterator_observed (TableIterator_next it)
             (seen @ [(TableIterator_key it, TableIterator_value it)]))"
  by pat_completeness auto
termination
  by (relation "measure (\<lambda>(it, seen). length (it_rest it))")
     (auto simp: TableIterator_done_def TableIterator_next_def)

section \<open>The worker and its RPC handlers\<close>

text \<open>
  The wire messages, field by field. Ids of tables, shards and workers are \<^verbatim>\<open>i32\<close>
  values that no handler computes with, integers here; the id of an iterator is
  compared with \<open>-1\<close> in a request and counted up as a \<^verbatim>\<open>uint32_t\<close>, a 32-bit word here;
  \<^verbatim>\<open>elapsed\<close> is the reading of the timer.
\<close>

record ('k, 'v) TableData =
  td_source :: int
  td_table :: int
  td_shard :: int
  td_done :: bool
  td_missing_key :: bool
  td_kv_data :: "('k \<times> 'v) list"

record 'k GetRequest =
  gr_table :: int
  gr_shard :: int
  gr_key :: 'k

record IteratorReq =
  iq_table :: int
  iq_shard :: int
  iq_id :: "32 word"
  iq_count :: "32 word"

record ('k, 'v) IteratorResp =
  ir_id :: "32 word"
  ir_results :: "('k \<times> 'v) list"
  ir_row_count :: "32 word"
  ir_done :: bool

type_synonym ArgMap = "string \<rightharpoonup> string"

record RunKernelReq =
  kr_table :: int
  kr_shard :: int
  kr_kernel :: string
  kr_kernel_args :: ArgMap
  kr_task_args :: ArgMap

record RunKernelResp =
  kp_elapsed :: real
  kp_error :: string

text \<open>
  The worker: \<^verbatim>\<open>running_\<close>, \<^verbatim>\<open>current_iterator_id_\<close>, \<^verbatim>\<open>id_\<close>, whether \<^verbatim>\<open>server_\<close> is
  not null, the maps \<^verbatim>\<open>tables_\<close> and \<^verbatim>\<open>iterators_\<close>, and whether
  \<^verbatim>\<open>TableContext::set_context(this)\<close> has made this worker the current context. Both
  maps hold pointers: an entry is \<open>Some None\<close> when the key is in the map with a null
  pointer, which is what \<^verbatim>\<open>operator[]\<close> inserts for a key that is not there.
\<close>

record ('k, 'v) Worker =
  running :: bool
  current_iterator_id :: "32 word"
  worker_id :: int
  server :: bool
  tables :: "int \<rightharpoonup> ('k, 'v) Table option"
  iterators :: "32 word \<rightharpoonup> ('k, 'v) TableIterator option"
  context_set :: bool

definition tables_at ::
  "('k, 'v) Worker \<Rightarrow> int \<Rightarrow> ('k, 'v) Table option \<times> ('k, 'v) Worker" where
  "tables_at w i =
     (case tables w i of
        None \<Rightarrow> (None, w\<lparr>tables := (tables w)(i \<mapsto> None)\<rparr>)
      | Some p \<Rightarrow> (p, w))"

definition iterators_at ::
  "('k, 'v) Worker \<Rightarrow> 32 word \<Rightarrow> ('k, 'v) TableIterator option \<times> ('k, 'v) Worker" where
  "iterators_at w i =
     (case iterators w i of
        None \<Rightarrow> (None, w\<lparr>iterators := (iterators w)(i \<mapsto> None)\<rparr>)
      | Some p \<Rightarrow> (p, w))"

text \<open>
  A handler takes the worker and the response object it was given, and returns the
  response (or how it died) with the worker as it leaves it.
\<close>

type_synonym ('k, 'v, 'r) handled = "(fatal + 'r) \<times> ('k, 'v) Worker"

subsection \<open>\<^verbatim>\<open>Worker::get\<close>\<close>

definition Worker_get ::
  "('k, 'v) Worker \<Rightarrow> 'k GetRequest \<Rightarrow> ('k, 'v) TableData
    \<Rightarrow> ('k, 'v, ('k, 'v) TableData) handled" where
  "Worker_get w req resp =
     (let resp1 = resp\<lparr>td_source := worker_id w, td_table := gr_table req,
                       td_shard := - 1, td_done := True\<rparr>;
          (t, w1) = tables_at w (gr_table req)
      in case t of
           None \<Rightarrow> (Inl NullPointer, w1)
         | Some tb \<Rightarrow>
             (case Table_contains tb (gr_shard req) (gr_key req) of
                Inl e \<Rightarrow> (Inl e, w1)
              | Inr False \<Rightarrow> (Inr (resp1\<lparr>td_missing_key := True\<rparr>), w1)
              | Inr True \<Rightarrow>
                  (case Table_get tb (gr_shard req) (gr_key req) of
                     Inl e \<Rightarrow> (Inl e, w1)
                   | Inr v \<Rightarrow>
                       (Inr (resp1\<lparr>td_missing_key := False,
                                   td_kv_data := td_kv_data resp1 @ [(gr_key req, v)]\<rparr>), w1))))"

subsection \<open>\<^verbatim>\<open>Worker::get_iterator\<close>\<close>

text \<open>
  The fill loop \<^verbatim>\<open>for (size_t i = 0; i < req.count; i++) if (!it->done()) { ... }\<close>; it
  runs \<^verbatim>\<open>req.count\<close> times also when the cursor is exhausted earlier.
\<close>

function get_iterator_loop ::
  "nat \<Rightarrow> nat \<Rightarrow> ('k, 'v) TableIterator \<Rightarrow> ('k, 'v) IteratorResp
    \<Rightarrow> ('k, 'v) IteratorResp \<times> ('k, 'v) TableIterator" where
  "get_iterator_loop i cnt it resp =
     (if i < cnt then
        (if \<not> TableIterator_done it
         then get_iterator_loop (i + 1) cnt (TableIterator_next it)
                (resp\<lparr>ir_results := ir_results resp @ [(TableIterator_key it, TableIterator_value it)],
                      ir_row_count := of_nat i\<rparr>)
         else get_iterator_loop (i + 1) cnt it resp)
      else (resp, it))"
  by pat_completeness auto
termination
  by (relation "measure (\<lambda>(i, cnt, it, resp). cnt - i)") auto

text \<open>
  After the locked block the handler holds a pointer \<open>it\<close> to an iterator that is
  registered under \<open>id\<close>; the loop advances that iterator in place.
\<close>

definition get_iterator_fill ::
  "('k, 'v) Worker \<Rightarrow> 32 word \<Rightarrow> ('k, 'v) TableIterator \<Rightarrow> 32 word \<Rightarrow> ('k, 'v) IteratorResp
    \<Rightarrow> ('k, 'v, ('k, 'v) IteratorResp) handled" where
  "get_iterator_fill w ident it cnt resp =
     (let (resp1, it1) = get_iterator_loop 0 (unat cnt) it resp
      in (Inr (resp1\<lparr>ir_done := TableIterator_done it1\<rparr>),
          w\<lparr>iterators := (iterators w)(ident \<mapsto> Some it1)\<rparr>))"

definition Worker_get_iterator ::
  "('k, 'v) Worker \<Rightarrow> IteratorReq \<Rightarrow> ('k, 'v) IteratorResp
    \<Rightarrow> ('k, 'v, ('k, 'v) IteratorResp) handled" where
  "Worker_get_iterator w req resp =
     (let (t, w1) = tables_at w (iq_table req)
      in if iq_id req = - 1 then
           (case t of
              None \<Rightarrow> (Inl NullPointer, w1)
            | Some tb \<Rightarrow>
                (case Table_get_iterator tb (iq_shard req) of
                   Inl e \<Rightarrow> (Inl e, w1)
                 | Inr it \<Rightarrow>
                     (let ident = current_iterator_id w1;
                          w2 = w1\<lparr>current_iterator_id := ident + 1,
                                  iterators := (iterators w1)(ident \<mapsto> Some it)\<rparr>
                      in get_iterator_fill w2 ident it (iq_count req) (resp\<lparr>ir_id := ident\<rparr>))))
         else
           (let (p, w2) = iterators_at w1 (iq_id req)
            in case p of
                 None \<Rightarrow> (Inl CheckFailed, w2)
               | Some it \<Rightarrow>
                   get_iterator_fill w2 (iq_id req) it (iq_count req) (resp\<lparr>ir_id := iq_id req\<rparr>)))"

subsection \<open>\<^verbatim>\<open>Worker::put\<close>\<close>

text \<open>
  \<^verbatim>\<open>for (auto p : req.kv_data) t->update(req.shard, p.key, p.value)\<close>, on the table
  object that \<open>t\<close> points to; a failing update ends the loop with the table as it is then.
\<close>

fun put_loop ::
  "('k, 'v) Table \<Rightarrow> int \<Rightarrow> ('k \<times> 'v) list \<Rightarrow> fatal option \<times> ('k, 'v) Table" where
  "put_loop t s [] = (None, t)"
| "put_loop t s (p # ps) =
     (case Table_update t s (fst p) (snd p) of
        Inl e \<Rightarrow> (Some e, t)
      | Inr t1 \<Rightarrow> put_loop t1 s ps)"

definition Worker_put ::
  "('k, 'v) Worker \<Rightarrow> ('k, 'v) TableData \<Rightarrow> ('k, 'v, unit) handled" where
  "Worker_put w req =
     (case tables w (td_table req) of
        None \<Rightarrow> (Inl CheckFailed, w)
      | Some None \<Rightarrow>
          (if td_kv_data req = [] then (Inr (), w) else (Inl NullPointer, w))
      | Some (Some t) \<Rightarrow>
          (case put_loop t (td_shard req) (td_kv_data req) of
             (Some e, t1) \<Rightarrow> (Inl e, w\<lparr>tables := (tables w)(td_table req \<mapsto> Some t1)\<rparr>)
           | (None, t1) \<Rightarrow> (Inr (), w\<lparr>tables := (tables w)(td_table req \<mapsto> Some t1)\<rparr>)))"

subsection \<open>\<^verbatim>\<open>Worker::destroy_table\<close> and \<^verbatim>\<open>Worker::shutdown\<close>\<close>

text \<open>
  \<^verbatim>\<open>delete tables_[id]; tables_.erase(tables_.find(id));\<close>: the key is in the map after
  \<^verbatim>\<open>operator[]\<close>, so the erase always finds it. Neither handler touches
  \<^verbatim>\<open>iterators_\<close>.
\<close>

definition Worker_destroy_table :: "('k, 'v) Worker \<Rightarrow> int \<Rightarrow> ('k, 'v) Worker" where
  "Worker_destroy_table w i =
     (let (t, w1) = tables_at w i
      in w1\<lparr>tables := (tables w1)(i := None)\<rparr>)"

definition Worker_shutdown :: "('k, 'v) Worker \<Rightarrow> ('k, 'v) Worker" where
  "Worker_shutdown w = w\<lparr>tables := Map.empty, server := False, running := False\<rparr>"

subsection \<open>\<^verbatim>\<open>Worker::run_kernel\<close>\<close>

text \<open>
  A kernel class is user code. What is taken of it is what \<^verbatim>\<open>k->init(this, kernel_args,
  task_args); k->run();\<close> does with the worker it is handed: it returns, it raises a
  \<^verbatim>\<open>PyException*\<close>, or it raises something else; in each case it leaves the worker in some
  state. The registry of kernel classes, \<^verbatim>\<open>format_exc\<close> and the reading of the timer at
  the end of the handler are parameters.

  Modelled from the spec: \<^verbatim>\<open>Log_fatal\<close> and a failed \<^verbatim>\<open>CHECK\<close>, macros that are missing:
  "Fatal; logged and aborts the worker". The handler ends there.

  The arguments of the first \<^verbatim>\<open>Log_debug\<close> read the size of the shard; they fail on a
  null table and on a shard outside the table as the owner lookup after them does.
\<close>

type_synonym PyException = string

datatype outcome = Returned | RaisedPyException PyException | RaisedOther

type_synonym ('k, 'v) Kernel =
  "ArgMap \<Rightarrow> ArgMap \<Rightarrow> ('k, 'v) Worker \<Rightarrow> outcome \<times> ('k, 'v) Worker"

definition Worker_run_kernel ::
  "(string \<Rightarrow> ('k, 'v) Kernel option) \<Rightarrow> (PyException \<Rightarrow> string) \<Rightarrow> real
    \<Rightarrow> ('k, 'v) Worker \<Rightarrow> RunKernelReq \<Rightarrow> RunKernelResp
    \<Rightarrow> ('k, 'v, RunKernelResp) handled" where
  "Worker_run_kernel registry format_exc elapsed w kreq resp =
     (let w0 = w\<lparr>context_set := True\<rparr>
      in if worker_id w0 = - 1 then (Inl CheckFailed, w0)
         else
           (let (t, w1) = tables_at w0 (kr_table kreq)
            in case t of
                 None \<Rightarrow> (Inl NullPointer, w1)
               | Some tb \<Rightarrow>
                   (case Table_worker_for_shard tb (kr_shard kreq) of
                      Inl e \<Rightarrow> (Inl e, w1)
                    | Inr owner \<Rightarrow>
                        if owner \<noteq> worker_id w1 then (Inl RoutingViolation, w1)
                        else
                          (case registry (kr_kernel kreq) of
                             None \<Rightarrow> (Inl UnknownKernel, w1)
                           | Some k \<Rightarrow>
                               (case k (kr_kernel_args kreq) (kr_task_args kreq) w1 of
                                  (Returned, w2) \<Rightarrow>
                                    (Inr (resp\<lparr>kp_elapsed := elapsed\<rparr>), w2)
                                | (RaisedPyException exc, w2) \<Rightarrow>
                                    (Inr (resp\<lparr>kp_error := format_exc exc,
                                               kp_elapsed := elapsed\<rparr>), w2)
                                | (RaisedOther, w2) \<Rightarrow> (Inl UncaughtException, w2))))))"

section \<open>The remote iterator\<close>

text \<open>
  Modelled from the spec: the call through the peer's proxy,
  \<^verbatim>\<open>table->workers[target_worker]->get_iterator(request_, &response_)\<close>, of the RPC
  transport, which is missing: "request/response dispatch", with the wire message
  \<open>IteratorReq \<rightarrow> IteratorResp\<close>. The peer's handler fills a response object of its own,
  and the reply read from the wire is what \<^verbatim>\<open>response_\<close> holds afterwards: the batch
  of this reply, not the batches before it.
\<close>

definition IteratorResp_new :: "('k, 'v) IteratorResp" where
  "IteratorResp_new = \<lparr>ir_id = 0, ir_results = [], ir_row_count = 0, ir_done = False\<rparr>"

definition WorkerProxy_get_iterator ::
  "('k, 'v) Worker \<Rightarrow> IteratorReq \<Rightarrow> ('k, 'v) IteratorResp
    \<Rightarrow> ('k, 'v, ('k, 'v) IteratorResp) handled" where
  "WorkerProxy_get_iterator peer req resp = Worker_get_iterator peer req IteratorResp_new"

record ('k, 'v) RemoteIterator =
  ri_shard :: int
  ri_done :: bool
  ri_fetch_num :: "32 word"
  ri_request :: IteratorReq
  ri_response :: "('k, 'v) IteratorResp"
  ri_index :: nat

text \<open>
  The constructor, for the table \<open>tid\<close> of the caller and the worker \<open>peer\<close> that
  \<^verbatim>\<open>worker_for_shard\<close> names there.
\<close>

definition RemoteIterator_new ::
  "('k, 'v) Worker \<Rightarrow> int \<Rightarrow> int \<Rightarrow> 32 word
    \<Rightarrow> (fatal + ('k, 'v) RemoteIterator) \<times> ('k, 'v) Worker" where
  "RemoteIterator_new peer tid shard fetch_num =
     (let request = \<lparr>iq_table = tid, iq_shard = shard, iq_id = - 1, iq_count = fetch_num\<rparr>
      in case WorkerProxy_get_iterator peer request IteratorResp_new of
           (Inl e, peer1) \<Rightarrow> (Inl e, peer1)
         | (Inr response, peer1) \<Rightarrow>
             (Inr \<lparr>ri_shard = shard, ri_done = False, ri_fetch_num = fetch_num,
                   ri_request = request\<lparr>iq_id := ir_id response\<rparr>,
                   ri_response = response, ri_index = 0\<rparr>, peer1))"

definition RemoteIterator_done :: "('k, 'v) RemoteIterator \<Rightarrow> bool" where
  "RemoteIterator_done ri =
     (ir_done (ri_response ri) \<and> ri_index ri = length (ir_results (ri_response ri)))"

definition RemoteIterator_next ::
  "('k, 'v) Worker \<Rightarrow> ('k, 'v) RemoteIterator
    \<Rightarrow> (fatal + ('k, 'v) RemoteIterator) \<times> ('k, 'v) Worker" where
  "RemoteIterator_next peer ri =
     (let ri1 = ri\<lparr>ri_index := ri_index ri + 1\<rparr>
      in if length (ir_results (ri_response ri1)) \<le> ri_index ri1 then
           (if ir_done (ri_response ri1) then (Inr ri1, peer)
            else
              (case WorkerProxy_get_iterator peer (ri_request ri1) (ri_response ri1) of
                 (Inl e, peer1) \<Rightarrow> (Inl e, peer1)
               | (Inr response, peer1) \<Rightarrow> (Inr (ri1\<lparr>ri_response := response\<rparr>), peer1)))
         else (Inr ri1, peer))"

text \<open>\<^verbatim>\<open>response_.results[index_]\<close>: a read beyond the end of the vector is undefined.\<close>

definition RemoteIterator_key_str :: "('k, 'v) RemoteIterator \<Rightarrow> fatal + 'k" where
  "RemoteIterator_key_str ri =
     (if ri_index ri < length (ir_results (ri_response ri))
      then Inr (fst (ir_results (ri_response ri) ! ri_index ri))
      else Inl OutOfRange)"

definition RemoteIterator_value_str :: "('k, 'v) RemoteIterator \<Rightarrow> fatal + 'v" where
  "RemoteIterator_value_str ri =
     (if ri_index ri < length (ir_results (ri_response ri))
      then Inr (snd (ir_results (ri_response ri) ! ri_index ri))
      else Inl OutOfRange)"

text \<open>
  The sequence a remote iterator shows to the loop
  \<^verbatim>\<open>for (; !it->done(); it->next()) use(it->key(), it->value())\<close>, with the failure that
  ended the loop, if one did. The first argument bounds the number of rounds; \<open>None\<close>
  means that the bound was reached.
\<close>

fun RemoteIterator_observed ::
  "nat \<Rightarrow> ('k, 'v) Worker \<Rightarrow> ('k, 'v) RemoteIterator \<Rightarrow> ('k \<times> 'v) list
    \<Rightarrow> (('k \<times> 'v) list \<times> fatal option) option" where
  "RemoteIterator_observed 0 peer ri seen = None"
| "RemoteIterator_observed (Suc n) peer ri seen =
     (if RemoteIterator_done ri then Some (seen, None)
      else
        (case RemoteIterator_key_str ri of
           Inl e \<Rightarrow> Some (seen, Some e)
         | Inr k \<Rightarrow>
             (case RemoteIterator_value_str ri of
                Inl e \<Rightarrow> Some (seen, Some e)
              | Inr v \<Rightarrow>
                  (case RemoteIterator_next peer ri of
                     (Inl e, peer1) \<Rightarrow> Some (seen @ [(k, v)], Some e)
                   | (Inr ri1, peer1) \<Rightarrow> RemoteIterator_observed n peer1 ri1 (seen @ [(k, v)])))))"

text \<open>
  The whole run on the client: construct the iterator with \<open>fetch_num\<close>, then loop.
\<close>

definition remote_iteration ::
  "nat \<Rightarrow> ('k, 'v) Worker \<Rightarrow> int \<Rightarrow> int \<Rightarrow> 32 word
    \<Rightarrow> (('k \<times> 'v) list \<times> fatal option) option" where
  "remote_iteration n peer tid shard fetch_num =
     (case RemoteIterator_new peer tid shard fetch_num of
        (Inl e, peer1) \<Rightarrow> Some ([], Some e)
      | (Inr ri, peer1) \<Rightarrow> RemoteIterator_observed n peer1 ri [])"

definition local_iteration :: "('k, 'v) Table \<Rightarrow> int \<Rightarrow> fatal + ('k \<times> 'v) list" where
  "local_iteration t shard =
     (case Table_get_iterator t shard of
        Inl e \<Rightarrow> Inl e
      | Inr it \<Rightarrow> Inr (LocalIterator_observed it []))"

text \<open>
  The cursor that a \<^verbatim>\<open>GetIterator\<close> request is served from, and the id it is registered
  under: for \<open>id = -1\<close> a new iterator over the addressed shard, under the next free id;
  otherwise the iterator registered under the id of the request.
\<close>

definition served_cursor ::
  "('k, 'v) Worker \<Rightarrow> IteratorReq \<Rightarrow> (32 word \<times> ('k, 'v) TableIterator) option" where
  "served_cursor w req =
     (if iq_id req = - 1 then
        (case tables w (iq_table req) of
           Some (Some t) \<Rightarrow>
             (case Table_get_iterator t (iq_shard req) of
                Inr it \<Rightarrow> Some (current_iterator_id w, it)
              | Inl e \<Rightarrow> None)
         | _ \<Rightarrow> None)
      else
        (case iterators w (iq_id req) of
           Some (Some it) \<Rightarrow> Some (iq_id req, it)
         | _ \<Rightarrow> None))"

text \<open>
  The claim about a batch, in the words of the spec: a value arriving for a key becomes
  the stored value when nothing is stored at the key, and \<open>reducer(old, v)\<close> when \<open>old\<close>
  is; \<open>merge_all\<close> does this for the values of a batch that arrive for one key, in the
  order of the batch.
\<close>

fun merge_all :: "('v \<Rightarrow> 'v \<Rightarrow> 'v) option \<Rightarrow> 'v option \<Rightarrow> 'v list \<Rightarrow> 'v option" where
  "merge_all r cur [] = cur"
| "merge_all r cur (v # vs) =
     merge_all r (Some (case cur of None \<Rightarrow> v | Some old \<Rightarrow> merge_value r old v)) vs"

text \<open>What the spec asks of a combiner or reducer: associative and commutative.\<close>

definition assoc_commute :: "('v \<Rightarrow> 'v \<Rightarrow> 'v) \<Rightarrow> bool" where
  "assoc_commute f = ((\<forall>a b. f a b = f b a) \<and> (\<forall>a b c. f (f a b) c = f a (f b c)))"

text \<open>
  The same for a reduce function on arrays, which takes two arrays and the number \<open>n\<close>
  of elements and gives the first array as it is afterwards: on arrays of \<open>n\<close>
  elements it stays within bounds, and is commutative and associative.
\<close>

definition dense_assoc_commute ::
  "(npy_int list \<Rightarrow> npy_int list \<Rightarrow> nat \<Rightarrow> npy_int list option) \<Rightarrow> bool" where
  "dense_assoc_commute d =
     (\<forall>n a b c. length a = n \<and> length b = n \<and> length c = n \<longrightarrow>
        (\<exists>r. d a b n = Some r \<and> length r = n)
        \<and> d a b n = d b a n
        \<and> Option.bind (d a b n) (\<lambda>m. d m c n) = Option.bind (d b c n) (\<lambda>m. d a m n))"

text \<open>
  The worker after a sequence of \<^verbatim>\<open>Put\<close> requests, handled one after the other, and the
  values that the requests of such a sequence carry for one key, in the order in which
  they are applied.
\<close>

fun put_all :: "('k, 'v) Worker \<Rightarrow> ('k, 'v) TableData list \<Rightarrow> ('k, 'v) Worker" where
  "put_all w [] = w"
| "put_all w (p # ps) = put_all (snd (Worker_put w p)) ps"

definition updates_for :: "'k \<Rightarrow> ('k, 'v) TableData list \<Rightarrow> 'v list" where
  "updates_for k ps = map snd (filter (\<lambda>e. fst e = k) (concat (map td_kv_data ps)))"

section \<open>Concrete states\<close>

text \<open>
  A table with id 0 and one shard, owned by worker \<open>owner\<close>, with keys that are strings
  and values that are \<^verbatim>\<open>npy_int\<close>; and the worker \<open>wid\<close> that holds this table and nothing
  else. The theorems below are instantiated on them.
\<close>

definition demo_table ::
  "int \<Rightarrow> (npy_int \<Rightarrow> npy_int \<Rightarrow> npy_int) option \<Rightarrow> (string \<times> npy_int) list
    \<Rightarrow> (string, npy_int) Table" where
  "demo_table owner r es = \<lparr>table_id = 0, shard_info = [owner], shards = [es], reducer = r\<rparr>"

definition demo_worker ::
  "int \<Rightarrow> int \<Rightarrow> (npy_int \<Rightarrow> npy_int \<Rightarrow> npy_int) option \<Rightarrow> (string \<times> npy_int) list
    \<Rightarrow> (string, npy_int) Worker" where
  "demo_worker wid owner r es =
     \<lparr>running = True, current_iterator_id = 0, worker_id = wid, server = True,
      tables = [0 \<mapsto> Some (demo_table owner r es)], iterators = Map.empty,
      context_set = False\<rparr>"

text \<open>
  The worker above after one \<^verbatim>\<open>GetIterator\<close> request for a new iterator, with a count
  larger than the shard, so that the response is the final one (\<open>done = true\<close>).
\<close>

definition demo_iterated :: "(string, npy_int) Worker" where
  "demo_iterated =
     snd (Worker_get_iterator (demo_worker 1 1 None [(''a'', 1)])
            \<lparr>iq_table = 0, iq_shard = 0, iq_id = - 1, iq_count = 5\<rparr> IteratorResp_new)"

text \<open>
  Two kernel classes: one that returns, and one that puts an entry into shard 0 of
  table 0 and then raises a \<^verbatim>\<open>PyException\<close>; a registry that knows them; and a
  \<^verbatim>\<open>format_exc\<close> that prints the exception after a heading.
\<close>

definition demo_kernel_ok :: "(string, npy_int) Kernel" where
  "demo_kernel_ok kernel_args task_args w = (Returned, w)"

definition demo_kernel_raising :: "(string, npy_int) Kernel" where
  "demo_kernel_raising kernel_args task_args w =
     (RaisedPyException ''ValueError'',
      snd (Worker_put w \<lparr>td_source = worker_id w, td_table = 0, td_shard = 0, td_done = True,
                         td_missing_key = False, td_kv_data = [(''k'', 1)]\<rparr>))"

definition demo_registry :: "string \<Rightarrow> (string, npy_int) Kernel option" where
  "demo_registry name =
     (if name = ''ok'' then Some demo_kernel_ok
      else if name = ''raising'' then Some demo_kernel_raising
      else None)"

definition demo_format_exc :: "PyException \<Rightarrow> string" where
  "demo_format_exc exc = ''Traceback: '' @ exc"

text \<open>
  The scenario of a shard of 1000 entries on worker 1 (keys and values are the numbers
  0 to 999), to be iterated remotely with a fetch count of 128.
\<close>

definition S4_entries :: "(nat \<times> nat) list" where
  "S4_entries = map (\<lambda>i. (i, i)) [0..<1000]"

definition S4_table :: "(nat, nat) Table" where
  "S4_table = \<lparr>table_id = 0, shard_info = [1], shards = [S4_entries], reducer = None\<rparr>"

definition S4_peer :: "(nat, nat) Worker" where
  "S4_peer =
     \<lparr>running = True, current_iterator_id = 0, worker_id = 1, server = True,
      tables = [0 \<mapsto> Some S4_table], iterators = Map.empty, context_set = False\<rparr>"

section \<open>Unfolding the loops\<close>

declare BINARY_DENSE_LOOP.simps [simp del]
declare get_iterator_loop.simps [simp del]
declare LocalIterator_observed.simps [simp del]

section \<open>Properties of the Modulo sharder\<close>

lemma sint_eq_imp_eq: "sint (a::'a::len word) = sint b \<Longrightarrow> a = b"
  by (metis uint_sint word_uint_eq_iff)

lemma uint_scast_pos:
  assumes "0 < sint (n::32 word)"
  shows "uint (scast n :: 64 word) = sint n"
proof -
  have up: "is_up (scast :: 32 word \<Rightarrow> 64 word)" by (simp add: is_up)
  have s: "sint (scast n :: 64 word) = sint n" by (rule sint_up_scast[OF up])
  have p: "0 < sint n" using assms .
  have "sint n < 2 ^ 31" using sint_lt[of n] by simp
  hence "sint n < 2 ^ 64" by simp
  hence "take_bit 64 (sint n) = sint n" using p by (simp add: take_bit_int_eq_self)
  thus ?thesis using s uint_sint[of "scast n :: 64 word"] by simp
qed

text \<open>
  C9. For every key and every positive number of shards, \<^verbatim>\<open>Modulo::shard_for_key\<close>
  returns a shard index in the range from 0 up to, and not including, the number of
  shards, and equal inputs give the equal result: the function reads nothing but its
  arguments and the hash of the key.
\<close>

theorem Modulo_shard_for_key_range:
  assumes "0 < sint num_shards"
  shows "\<exists>s. shard_for_key hash_value k num_shards = Some s
           \<and> 0 \<le> uint s \<and> uint s < sint num_shards
           \<and> (\<forall>k' n'. k' = k \<and> n' = num_shards
                 \<longrightarrow> shard_for_key hash_value k' n' = Some s)"
proof -
  let ?d = "scast num_shards :: 64 word"
  have u: "uint ?d = sint num_shards" by (rule uint_scast_pos[OF assms])
  have p: "0 < sint num_shards" using assms .
  have nz: "?d \<noteq> 0"
  proof
    assume "?d = 0"
    hence "uint ?d = 0" by simp
    thus False using u p by simp
  qed
  have "uint (hash_value k mod ?d) = uint (hash_value k) mod uint ?d" by (rule uint_mod)
  also have "\<dots> < uint ?d" using u p by (simp add: pos_mod_bound)
  finally have "uint (hash_value k mod ?d) < sint num_shards" using u by simp
  thus ?thesis using nz by (simp add: shard_for_key_def)
qed

theorem Modulo_shard_for_key_range_witness:
  "0 < sint (5::32 word) \<and> shard_for_key (\<lambda>k::64 word. k) 17 5 = Some 2"
proof -
  have h: "0 < sint (5::32 word)" by simp
  from Modulo_shard_for_key_range[OF h, of "\<lambda>k::64 word. k" 17]
  show ?thesis using h by (simp add: shard_for_key_def)
qed

section \<open>The \<^verbatim>\<open>GetIterator\<close> handler\<close>

lemma tables_at_present: "tables w i = Some p \<Longrightarrow> tables_at w i = (p, w)"
  by (simp add: tables_at_def)

lemma iterators_tables_at: "iterators (snd (tables_at w i)) = iterators w"
  by (simp add: tables_at_def split: option.splits)


lemma get_iterator_loop_stop:
  "\<not> i < c \<Longrightarrow> get_iterator_loop i c it resp = (resp, it)"
  by (subst get_iterator_loop.simps) simp

lemma get_iterator_loop_skip:
  "i < c \<Longrightarrow> it_rest it = [] \<Longrightarrow>
   get_iterator_loop i c it resp = get_iterator_loop (i + 1) c it resp"
  by (subst get_iterator_loop.simps) (simp add: TableIterator_done_def)

lemma get_iterator_loop_push:
  "i < c \<Longrightarrow> it_rest it = e # es \<Longrightarrow>
   get_iterator_loop i c it resp =
     get_iterator_loop (i + 1) c (it\<lparr>it_rest := es\<rparr>)
       (resp\<lparr>ir_results := ir_results resp @ [e], ir_row_count := of_nat i\<rparr>)"
  by (subst get_iterator_loop.simps)
     (simp add: TableIterator_done_def TableIterator_next_def TableIterator_key_def
        TableIterator_value_def)

lemma get_iterator_loop_spec:
  "ir_results (fst (get_iterator_loop i c it resp)) = ir_results resp @ take (c - i) (it_rest it)
   \<and> snd (get_iterator_loop i c it resp) = it\<lparr>it_rest := drop (c - i) (it_rest it)\<rparr>
   \<and> ir_id (fst (get_iterator_loop i c it resp)) = ir_id resp"
proof (induction "c - i" arbitrary: i it resp)
  case 0
  then have "\<not> i < c" by simp
  then show ?case using 0 by (simp add: get_iterator_loop_stop)
next
  case (Suc d)
  then have lt: "i < c" and d: "d = c - (i + 1)" and s: "c - i = Suc d" by simp_all
  show ?case
  proof (cases "it_rest it")
    case Nil
    have "get_iterator_loop i c it resp = get_iterator_loop (i + 1) c it resp"
      using lt Nil by (rule get_iterator_loop_skip)
    then show ?thesis using Suc.hyps(1)[OF d, of it resp] Nil by simp
  next
    case (Cons e es)
    let ?it = "it\<lparr>it_rest := es\<rparr>"
    let ?resp = "resp\<lparr>ir_results := ir_results resp @ [e], ir_row_count := of_nat i\<rparr>"
    have "get_iterator_loop i c it resp = get_iterator_loop (i + 1) c ?it ?resp"
      using lt Cons by (rule get_iterator_loop_push)
    then show ?thesis using Suc.hyps(1)[OF d, of ?it ?resp] Cons s d by simp
  qed
qed


lemma get_iterator_fill_eq:
  "\<exists>resp'. get_iterator_fill w ident it c resp
      = (Inr resp', w\<lparr>iterators := (iterators w)(ident \<mapsto> Some (it\<lparr>it_rest := drop (unat c) (it_rest it)\<rparr>))\<rparr>)
     \<and> ir_results resp' = ir_results resp @ take (unat c) (it_rest it)
     \<and> ir_done resp' = (length (it_rest it) \<le> unat c)
     \<and> ir_id resp' = ir_id resp"
proof -
  obtain r1 i1 where l: "get_iterator_loop 0 (unat c) it resp = (r1, i1)"
    by (cases "get_iterator_loop 0 (unat c) it resp")
  have a: "ir_results r1 = ir_results resp @ take (unat c) (it_rest it)"
    and b: "i1 = it\<lparr>it_rest := drop (unat c) (it_rest it)\<rparr>"
    and c: "ir_id r1 = ir_id resp"
    using get_iterator_loop_spec[of 0 "unat c" it resp] l by simp_all
  show ?thesis
    using l a b c by (simp add: get_iterator_fill_def TableIterator_done_def)
qed

lemma Worker_get_iterator_served:
  assumes cur: "served_cursor w req = Some (ident, it)"
  shows "\<exists>w1. Worker_get_iterator w req resp
            = get_iterator_fill w1 ident it (iq_count req) (resp\<lparr>ir_id := ident\<rparr>)
          \<and> tables w1 = (if tables w (iq_table req) = None
                          then (tables w)(iq_table req \<mapsto> None) else tables w)
          \<and> iterators w1 = (if iq_id req = - 1 then (iterators w)(ident \<mapsto> Some it)
                             else iterators w)"
proof (cases "iq_id req = - 1")
  case True
  with cur obtain t where t: "tables w (iq_table req) = Some (Some t)"
      and gi: "Table_get_iterator t (iq_shard req) = Inr it"
      and id: "ident = current_iterator_id w"
    by (auto simp: served_cursor_def split: option.splits sum.splits)
  let ?w2 = "w\<lparr>current_iterator_id := ident + 1,
                 iterators := (iterators w)(ident \<mapsto> Some it)\<rparr>"
  have "Worker_get_iterator w req resp
        = get_iterator_fill ?w2 ident it (iq_count req) (resp\<lparr>ir_id := ident\<rparr>)"
    using True t gi id
    by (simp add: Worker_get_iterator_def tables_at_present Let_def)
  moreover have "tables ?w2 = tables w" "iterators ?w2 = (iterators w)(ident \<mapsto> Some it)"
    by simp_all
  ultimately show ?thesis using True t by (intro exI[of _ ?w2]) simp
next
  case False
  with cur have it: "iterators w (iq_id req) = Some (Some it)" and id: "ident = iq_id req"
    by (auto simp: served_cursor_def split: option.splits)
  obtain p w1 where ta: "tables_at w (iq_table req) = (p, w1)"
    by (cases "tables_at w (iq_table req)")
  have iw1: "iterators w1 = iterators w"
    using iterators_tables_at[of w "iq_table req"] ta by simp
  have tw1: "tables w1 = (if tables w (iq_table req) = None
                          then (tables w)(iq_table req \<mapsto> None) else tables w)"
    using ta by (auto simp: tables_at_def split: option.splits)
  have ia: "iterators_at w1 (iq_id req) = (Some it, w1)"
    using it iw1 by (simp add: iterators_at_def)
  have "Worker_get_iterator w req resp
        = get_iterator_fill w1 ident it (iq_count req) (resp\<lparr>ir_id := ident\<rparr>)"
    using False ta ia id by (simp add: Worker_get_iterator_def)
  then show ?thesis using iw1 tw1 False by auto
qed

text \<open>
  C5. A \<^verbatim>\<open>GetIterator\<close> request with count \<open>c\<close>, served from a cursor with \<open>r\<close> entries
  left and answered into a fresh response, returns the first \<open>min c r\<close> of these entries
  in cursor order, and \<open>done\<close> is true exactly when the cursor is exhausted after the
  fill, that is when \<open>r \<le> c\<close>. With count 0 the batch is empty and \<open>done\<close> is the
  cursor's current \<open>done\<close>; on an exhausted cursor (the first request against an empty
  shard) the batch is empty and \<open>done\<close> is true. The response carries the id of the
  cursor, and the cursor stays registered, advanced past the batch.
\<close>

theorem Worker_get_iterator_batch:
  assumes cur: "served_cursor w req = Some (ident, it)"
    and fresh: "ir_results resp = []"
  shows "\<exists>resp' w'. Worker_get_iterator w req resp = (Inr resp', w')
           \<and> ir_results resp' = take (unat (iq_count req)) (it_rest it)
           \<and> length (ir_results resp') = min (unat (iq_count req)) (length (it_rest it))
           \<and> ir_done resp' = (length (it_rest it) \<le> unat (iq_count req))
           \<and> (iq_count req = 0 \<longrightarrow> ir_results resp' = [] \<and> ir_done resp' = TableIterator_done it)
           \<and> (it_rest it = [] \<longrightarrow> ir_results resp' = [] \<and> ir_done resp')
           \<and> ir_id resp' = ident
           \<and> iterators w' ident
               = Some (Some (it\<lparr>it_rest := drop (unat (iq_count req)) (it_rest it)\<rparr>))"
proof -
  from Worker_get_iterator_served[OF cur, of resp] obtain w1 where
    e: "Worker_get_iterator w req resp
          = get_iterator_fill w1 ident it (iq_count req) (resp\<lparr>ir_id := ident\<rparr>)"
    by blast
  from get_iterator_fill_eq[of w1 ident it "iq_count req" "resp\<lparr>ir_id := ident\<rparr>"]
  obtain resp' where
    f: "get_iterator_fill w1 ident it (iq_count req) (resp\<lparr>ir_id := ident\<rparr>)
        = (Inr resp', w1\<lparr>iterators := (iterators w1)(ident \<mapsto> Some (it\<lparr>it_rest := drop (unat (iq_count req)) (it_rest it)\<rparr>))\<rparr>)"
    and r: "ir_results resp' = take (unat (iq_count req)) (it_rest it)"
    and d: "ir_done resp' = (length (it_rest it) \<le> unat (iq_count req))"
    and i: "ir_id resp' = ident"
    using fresh by auto
  have z: "iq_count req = 0 \<longrightarrow> ir_results resp' = [] \<and> ir_done resp' = TableIterator_done it"
    using r d by (simp add: TableIterator_done_def)
  have n: "it_rest it = [] \<longrightarrow> ir_results resp' = [] \<and> ir_done resp'"
    using r d by simp
  have l: "length (ir_results resp') = min (unat (iq_count req)) (length (it_rest it))"
    using r by simp
  show ?thesis
    using e f r d i z n l by simp
qed

theorem Worker_get_iterator_batch_witness:
  "served_cursor (demo_worker 1 1 None [(''a'', 1), (''b'', 2), (''c'', 3)])
       \<lparr>iq_table = 0, iq_shard = 0, iq_id = - 1, iq_count = 2\<rparr>
     = Some (0, \<lparr>it_table = 0, it_shard = 0, it_rest = [(''a'', 1), (''b'', 2), (''c'', 3)]\<rparr>)
   \<and> ir_results (IteratorResp_new :: (string, npy_int) IteratorResp) = []
   \<and> (\<exists>resp' w'. Worker_get_iterator (demo_worker 1 1 None [(''a'', 1), (''b'', 2), (''c'', 3)])
          \<lparr>iq_table = 0, iq_shard = 0, iq_id = - 1, iq_count = 2\<rparr> IteratorResp_new = (Inr resp', w')
        \<and> ir_results resp' = [(''a'', 1), (''b'', 2)] \<and> \<not> ir_done resp'
        \<and> iterators w' 0 = Some (Some \<lparr>it_table = 0, it_shard = 0, it_rest = [(''c'', 3)]\<rparr>))"
proof -
  let ?w = "demo_worker 1 1 None [(''a'', 1), (''b'', 2), (''c'', 3)]"
  let ?req = "\<lparr>iq_table = 0, iq_shard = 0, iq_id = - 1, iq_count = 2\<rparr>"
  let ?it = "\<lparr>it_table = 0, it_shard = 0, it_rest = [(''a'', 1 :: npy_int), (''b'', 2), (''c'', 3)]\<rparr>"
  have c: "served_cursor ?w ?req = Some (0, ?it)"
    by (simp add: served_cursor_def demo_worker_def demo_table_def Table_get_iterator_def
        valid_shard_def)
  have f: "ir_results (IteratorResp_new :: (string, npy_int) IteratorResp) = []"
    by (simp add: IteratorResp_new_def)
  from Worker_get_iterator_batch[OF c f]
  show ?thesis using c f by auto
qed

section \<open>The \<^verbatim>\<open>Get\<close> handler\<close>

text \<open>
  C10. Every response of the \<^verbatim>\<open>Get\<close> handler carries the id of the handling worker as
  source, the table of the request, the shard \<open>-1\<close> and \<open>done = true\<close>, whatever shard
  the request names and whether or not the key is there; the shard of the request is
  not echoed. The handler responds whenever the table is registered and the shard is one
  of the table.
\<close>

theorem Worker_get_response_header:
  "(\<forall>resp' w'. Worker_get w req resp = (Inr resp', w')
       \<longrightarrow> td_source resp' = worker_id w \<and> td_table resp' = gr_table req
           \<and> td_shard resp' = - 1 \<and> td_done resp')
   \<and> (\<forall>t. tables w (gr_table req) = Some (Some t) \<and> valid_shard t (gr_shard req)
       \<longrightarrow> (\<exists>resp'. Worker_get w req resp = (Inr resp', w)))"
proof (rule conjI)
  show "\<forall>resp' w'. Worker_get w req resp = (Inr resp', w')
       \<longrightarrow> td_source resp' = worker_id w \<and> td_table resp' = gr_table req
           \<and> td_shard resp' = - 1 \<and> td_done resp'"
    by (auto simp: Worker_get_def Let_def split: prod.splits option.splits sum.splits bool.splits)
next
  show "\<forall>t. tables w (gr_table req) = Some (Some t) \<and> valid_shard t (gr_shard req)
       \<longrightarrow> (\<exists>resp'. Worker_get w req resp = (Inr resp', w))"
  proof (intro allI impI)
    fix t
    assume a: "tables w (gr_table req) = Some (Some t) \<and> valid_shard t (gr_shard req)"
    then show "\<exists>resp'. Worker_get w req resp = (Inr resp', w)"
      by (cases "map_of (shards t ! nat (gr_shard req)) (gr_key req)")
         (simp_all add: Worker_get_def tables_at_present Table_contains_def Table_get_def)
  qed
qed

theorem Worker_get_response_header_witness:
  "\<exists>resp'. Worker_get (demo_worker 1 1 None [(''a'', 5)])
       \<lparr>gr_table = 0, gr_shard = 0, gr_key = ''zz''\<rparr>
       \<lparr>td_source = 9, td_table = 9, td_shard = 0, td_done = False, td_missing_key = False,
        td_kv_data = []\<rparr>
     = (Inr resp', demo_worker 1 1 None [(''a'', 5)])
     \<and> td_source resp' = 1 \<and> td_table resp' = 0 \<and> td_shard resp' = - 1 \<and> td_done resp'"
proof -
  let ?w = "demo_worker 1 1 None [(''a'', 5)]"
  let ?req = "\<lparr>gr_table = 0, gr_shard = 0, gr_key = ''zz''\<rparr>"
  let ?resp = "\<lparr>td_source = 9, td_table = 9, td_shard = 0, td_done = False,
      td_missing_key = False, td_kv_data = [] :: (string \<times> npy_int) list\<rparr>"
  have t: "tables ?w (gr_table ?req) = Some (Some (demo_table 1 None [(''a'', 5)]))
           \<and> valid_shard (demo_table 1 None [(''a'', 5)]) (gr_shard ?req)"
    by (simp add: demo_worker_def demo_table_def valid_shard_def)
  from Worker_get_response_header[of ?w ?req ?resp] t
  obtain resp' where r: "Worker_get ?w ?req ?resp = (Inr resp', ?w)" by blast
  with Worker_get_response_header[of ?w ?req ?resp]
  have "td_source resp' = worker_id ?w \<and> td_table resp' = gr_table ?req
           \<and> td_shard resp' = - 1 \<and> td_done resp'" by blast
  then show ?thesis using r by (simp add: demo_worker_def)
qed

text \<open>
  C7. For a \<^verbatim>\<open>Get\<close> request on a registered table and one of its shards, answered into a
  fresh response: when the shard does not hold the key, the response has
  \<open>missing_key = true\<close> and no entry in \<open>kv_data\<close>; when it does, the response has
  \<open>missing_key = false\<close> and \<open>kv_data\<close> is the one pair of the key and the stored value.
  In both cases the handler responds, it does not fail.
\<close>

theorem Worker_get_missing_key:
  assumes "tables w (gr_table req) = Some (Some t)"
    and "valid_shard t (gr_shard req)"
    and "td_kv_data resp = []"
  shows "\<exists>resp'. Worker_get w req resp = (Inr resp', w)
           \<and> (case map_of (shards t ! nat (gr_shard req)) (gr_key req) of
                 None \<Rightarrow> td_missing_key resp' \<and> td_kv_data resp' = []
               | Some v \<Rightarrow> \<not> td_missing_key resp' \<and> td_kv_data resp' = [(gr_key req, v)])"
  using assms
  by (cases "map_of (shards t ! nat (gr_shard req)) (gr_key req)")
     (simp_all add: Worker_get_def tables_at_present Table_contains_def Table_get_def)

theorem Worker_get_missing_key_witness:
  "(\<exists>resp'. Worker_get (demo_worker 1 1 None [(''a'', 5)])
       \<lparr>gr_table = 0, gr_shard = 0, gr_key = ''zz''\<rparr>
       \<lparr>td_source = 9, td_table = 9, td_shard = 0, td_done = False, td_missing_key = False,
        td_kv_data = []\<rparr>
     = (Inr resp', demo_worker 1 1 None [(''a'', 5)])
     \<and> td_missing_key resp' \<and> td_kv_data resp' = [])
   \<and> (\<exists>resp'. Worker_get (demo_worker 1 1 None [(''a'', 5)])
       \<lparr>gr_table = 0, gr_shard = 0, gr_key = ''a''\<rparr>
       \<lparr>td_source = 9, td_table = 9, td_shard = 0, td_done = False, td_missing_key = True,
        td_kv_data = []\<rparr>
     = (Inr resp', demo_worker 1 1 None [(''a'', 5)])
     \<and> \<not> td_missing_key resp' \<and> td_kv_data resp' = [(''a'', 5)])"
proof -
  let ?w = "demo_worker 1 1 None [(''a'', 5)]"
  let ?t = "demo_table 1 None [(''a'', 5)]"
  let ?r1 = "\<lparr>gr_table = 0, gr_shard = 0, gr_key = ''zz''\<rparr>"
  let ?r2 = "\<lparr>gr_table = 0, gr_shard = 0, gr_key = ''a''\<rparr>"
  let ?p1 = "\<lparr>td_source = 9, td_table = 9, td_shard = 0, td_done = False,
      td_missing_key = False, td_kv_data = [] :: (string \<times> npy_int) list\<rparr>"
  let ?p2 = "\<lparr>td_source = 9, td_table = 9, td_shard = 0, td_done = False,
      td_missing_key = True, td_kv_data = [] :: (string \<times> npy_int) list\<rparr>"
  have t1: "tables ?w (gr_table ?r1) = Some (Some ?t)" and t2: "tables ?w (gr_table ?r2) = Some (Some ?t)"
    by (simp_all add: demo_worker_def)
  have v1: "valid_shard ?t (gr_shard ?r1)" and v2: "valid_shard ?t (gr_shard ?r2)"
    by (simp_all add: demo_table_def valid_shard_def)
  have e1: "td_kv_data ?p1 = []" and e2: "td_kv_data ?p2 = []" by simp_all
  from Worker_get_missing_key[OF t1 v1 e1] Worker_get_missing_key[OF t2 v2 e2]
  show ?thesis by (simp add: demo_table_def)
qed

section \<open>The iterator registry\<close>

lemma demo_iterated_eq:
  "Worker_get_iterator (demo_worker 1 1 None [(''a'', 1)])
            \<lparr>iq_table = 0, iq_shard = 0, iq_id = - 1, iq_count = 5\<rparr> IteratorResp_new
   = (Inr \<lparr>ir_id = 0, ir_results = [(''a'', 1)], ir_row_count = 0, ir_done = True\<rparr>,
      (demo_worker 1 1 None [(''a'', 1)])
        \<lparr>current_iterator_id := 1,
         iterators := [0 \<mapsto> Some \<lparr>it_table = 0, it_shard = 0, it_rest = []\<rparr>]\<rparr>)"
  by (simp add: Worker_get_iterator_def tables_at_def demo_worker_def demo_table_def
      Table_get_iterator_def valid_shard_def get_iterator_fill_def get_iterator_loop.simps
      TableIterator_done_def TableIterator_next_def TableIterator_key_def
      TableIterator_value_def IteratorResp_new_def Let_def)

lemma get_iterator_fill_keeps:
  "get_iterator_fill w ident it c resp = (r, w') \<Longrightarrow> iterators w j \<noteq> None
   \<Longrightarrow> iterators w' j \<noteq> None"
  by (auto simp: get_iterator_fill_def split: prod.splits)

lemma iterators_at_keeps:
  "iterators_at w i = (p, w') \<Longrightarrow> iterators w j \<noteq> None \<Longrightarrow> iterators w' j \<noteq> None"
  by (auto simp: iterators_at_def split: option.splits)

lemma Worker_get_iterator_keeps:
  assumes "Worker_get_iterator w req resp = (r, w')" and "iterators w j \<noteq> None"
  shows "iterators w' j \<noteq> None"
proof -
  obtain t w1 where ta: "tables_at w (iq_table req) = (t, w1)"
    by (cases "tables_at w (iq_table req)")
  have i1: "iterators w1 j \<noteq> None"
    using iterators_tables_at[of w "iq_table req"] ta assms(2) by simp
  show ?thesis
  proof (cases "iq_id req = - 1")
    case True
    show ?thesis
    proof (cases t)
      case None
      with True ta assms(1) i1 show ?thesis by (simp add: Worker_get_iterator_def)
    next
      case (Some tb)
      show ?thesis
      proof (cases "Table_get_iterator tb (iq_shard req)")
        case (Inl e)
        with True ta Some assms(1) i1 show ?thesis by (simp add: Worker_get_iterator_def)
      next
        case (Inr it)
        let ?w2 = "w1\<lparr>current_iterator_id := current_iterator_id w1 + 1,
                       iterators := (iterators w1)(current_iterator_id w1 \<mapsto> Some it)\<rparr>"
        have f: "get_iterator_fill ?w2 (current_iterator_id w1) it (iq_count req)
                   (resp\<lparr>ir_id := current_iterator_id w1\<rparr>) = (r, w')"
          using True ta Some Inr assms(1) by (simp add: Worker_get_iterator_def Let_def)
        have "iterators ?w2 j \<noteq> None" using i1 by simp
        with f show ?thesis by (rule get_iterator_fill_keeps)
      qed
    qed
  next
    case False
    obtain p w2 where ia: "iterators_at w1 (iq_id req) = (p, w2)"
      by (cases "iterators_at w1 (iq_id req)")
    have i2: "iterators w2 j \<noteq> None" using ia i1 by (rule iterators_at_keeps)
    show ?thesis
    proof (cases p)
      case None
      with False ta ia assms(1) i2 show ?thesis by (simp add: Worker_get_iterator_def)
    next
      case (Some it)
      have f: "get_iterator_fill w2 (iq_id req) it (iq_count req) (resp\<lparr>ir_id := iq_id req\<rparr>) = (r, w')"
        using False ta ia Some assms(1) by (simp add: Worker_get_iterator_def)
      from f i2 show ?thesis by (rule get_iterator_fill_keeps)
    qed
  qed
qed

text \<open>
  C8, as the claim states it, fails: a worker serves the final batch of an iterator
  (\<open>done = true\<close>) and is then told to destroy the table, or to shut down; the table is
  gone from \<^verbatim>\<open>tables_\<close>, and the iterator over its shard is still registered in
  \<^verbatim>\<open>iterators_\<close> under its id.
\<close>

theorem iterators_survive_destroy_table:
  "fst (Worker_get_iterator (demo_worker 1 1 None [(''a'', 1)])
            \<lparr>iq_table = 0, iq_shard = 0, iq_id = - 1, iq_count = 5\<rparr> IteratorResp_new)
     = Inr \<lparr>ir_id = 0, ir_results = [(''a'', 1)], ir_row_count = 0, ir_done = True\<rparr>
   \<and> iterators demo_iterated 0 = Some (Some \<lparr>it_table = 0, it_shard = 0, it_rest = []\<rparr>)
   \<and> tables (Worker_destroy_table demo_iterated 0) 0 = None
   \<and> iterators (Worker_destroy_table demo_iterated 0) 0
       = Some (Some \<lparr>it_table = 0, it_shard = 0, it_rest = []\<rparr>)
   \<and> tables (Worker_shutdown demo_iterated) 0 = None
   \<and> iterators (Worker_shutdown demo_iterated) 0
       = Some (Some \<lparr>it_table = 0, it_shard = 0, it_rest = []\<rparr>)"
  unfolding demo_iterated_def demo_iterated_eq
  by (simp add: Worker_destroy_table_def Worker_shutdown_def tables_at_def demo_worker_def)

text \<open>
  C8, amended. No handler removes an iterator from the registry: \<^verbatim>\<open>DestroyTable\<close> removes
  the table from \<^verbatim>\<open>tables_\<close> and \<^verbatim>\<open>Shutdown\<close> clears \<^verbatim>\<open>tables_\<close>, and both leave
  \<^verbatim>\<open>iterators_\<close> as it was; a \<^verbatim>\<open>GetIterator\<close> request, whatever its outcome, leaves
  every registered id registered.
\<close>

theorem iterators_never_removed:
  "iterators (Worker_destroy_table w i) = iterators w
   \<and> tables (Worker_destroy_table w i) i = None
   \<and> iterators (Worker_shutdown w) = iterators w
   \<and> tables (Worker_shutdown w) = Map.empty
   \<and> (\<forall>req resp j. iterators w j \<noteq> None
         \<longrightarrow> iterators (snd (Worker_get_iterator w req resp)) j \<noteq> None)"
proof -
  have a: "iterators (Worker_destroy_table w i) = iterators w"
    by (simp add: Worker_destroy_table_def tables_at_def split: option.splits)
  have b: "tables (Worker_destroy_table w i) i = None"
    by (simp add: Worker_destroy_table_def tables_at_def split: option.splits)
  have c: "iterators (Worker_shutdown w) = iterators w"
    and d: "tables (Worker_shutdown w) = Map.empty"
    by (simp_all add: Worker_shutdown_def)
  have e: "\<forall>req resp j. iterators w j \<noteq> None
         \<longrightarrow> iterators (snd (Worker_get_iterator w req resp)) j \<noteq> None"
    using Worker_get_iterator_keeps[OF surjective_pairing] by blast
  from a b c d e show ?thesis by blast
qed

theorem iterators_never_removed_witness:
  "iterators demo_iterated 0 \<noteq> None
   \<and> iterators (snd (Worker_get_iterator demo_iterated
        \<lparr>iq_table = 0, iq_shard = 0, iq_id = 0, iq_count = 1\<rparr> IteratorResp_new)) 0 \<noteq> None
   \<and> iterators (Worker_destroy_table demo_iterated 0) = iterators demo_iterated
   \<and> iterators (Worker_shutdown demo_iterated) = iterators demo_iterated"
proof -
  have h: "iterators demo_iterated 0 \<noteq> None"
    by (simp add: demo_iterated_def demo_iterated_eq)
  from iterators_never_removed[of demo_iterated 0] h
  show ?thesis by blast
qed

section \<open>The \<^verbatim>\<open>RunKernel\<close> handler\<close>

lemma Worker_run_kernel_owner:
  assumes "worker_id w \<noteq> - 1"
    and "tables w (kr_table kreq) = Some (Some t)"
    and "valid_shard t (kr_shard kreq)"
  shows "Worker_run_kernel registry format_exc elapsed w kreq resp =
     (if shard_info t ! nat (kr_shard kreq) \<noteq> worker_id w
      then (Inl RoutingViolation, w\<lparr>context_set := True\<rparr>)
      else
        (case registry (kr_kernel kreq) of
           None \<Rightarrow> (Inl UnknownKernel, w\<lparr>context_set := True\<rparr>)
         | Some k \<Rightarrow>
             (case k (kr_kernel_args kreq) (kr_task_args kreq) (w\<lparr>context_set := True\<rparr>) of
                (Returned, w2) \<Rightarrow> (Inr (resp\<lparr>kp_elapsed := elapsed\<rparr>), w2)
              | (RaisedPyException exc, w2) \<Rightarrow>
                  (Inr (resp\<lparr>kp_error := format_exc exc, kp_elapsed := elapsed\<rparr>), w2)
              | (RaisedOther, w2) \<Rightarrow> (Inl UncaughtException, w2))))"
proof -
  have "tables (w\<lparr>context_set := True\<rparr>) (kr_table kreq) = Some (Some t)"
    using assms(2) by simp
  then have ta: "tables_at (w\<lparr>context_set := True\<rparr>) (kr_table kreq)
                 = (Some t, w\<lparr>context_set := True\<rparr>)"
    by (rule tables_at_present)
  show ?thesis
    using assms(1,3) ta
    by (simp add: Worker_run_kernel_def Table_worker_for_shard_def Let_def)
qed

text \<open>
  C3. On an initialised worker (\<open>id \<noteq> -1\<close>), for a \<^verbatim>\<open>RunKernel\<close> request on a registered
  table and one of its shards: when \<open>worker_for_shard\<close> is not the worker's id, the
  handler ends with the fatal routing violation, and the worker is then as it was but
  for the current table context; its tables, their shards and its iterators are not
  changed. When the worker is the owner, the handler does not end with a routing
  violation, and a registered kernel is run: the worker is left as the kernel leaves it.
\<close>

theorem Worker_run_kernel_routing:
  assumes "worker_id w \<noteq> - 1"
    and "tables w (kr_table kreq) = Some (Some t)"
    and "valid_shard t (kr_shard kreq)"
  shows "(Table_worker_for_shard t (kr_shard kreq) \<noteq> Inr (worker_id w)
            \<longrightarrow> Worker_run_kernel registry format_exc elapsed w kreq resp
                  = (Inl RoutingViolation, w\<lparr>context_set := True\<rparr>)
                \<and> tables (snd (Worker_run_kernel registry format_exc elapsed w kreq resp)) = tables w
                \<and> iterators (snd (Worker_run_kernel registry format_exc elapsed w kreq resp))
                    = iterators w)
       \<and> (Table_worker_for_shard t (kr_shard kreq) = Inr (worker_id w)
            \<longrightarrow> (\<forall>k. registry (kr_kernel kreq) = Some k
                  \<longrightarrow> fst (Worker_run_kernel registry format_exc elapsed w kreq resp)
                        \<noteq> Inl RoutingViolation
                      \<and> snd (Worker_run_kernel registry format_exc elapsed w kreq resp)
                        = snd (k (kr_kernel_args kreq) (kr_task_args kreq)
                                 (w\<lparr>context_set := True\<rparr>))))"
proof -
  note e = Worker_run_kernel_owner[OF assms, of registry format_exc elapsed resp]
  have o: "Table_worker_for_shard t (kr_shard kreq) = Inr (shard_info t ! nat (kr_shard kreq))"
    using assms(3) by (simp add: Table_worker_for_shard_def)
  show ?thesis
    unfolding e o
    by (auto split: prod.splits outcome.splits)
qed

theorem Worker_run_kernel_routing_witness:
  "Worker_run_kernel demo_registry demo_format_exc 2 (demo_worker 0 1 None [(''a'', 1)])
       \<lparr>kr_table = 0, kr_shard = 0, kr_kernel = ''raising'', kr_kernel_args = Map.empty,
        kr_task_args = Map.empty\<rparr> \<lparr>kp_elapsed = 0, kp_error = []\<rparr>
     = (Inl RoutingViolation, (demo_worker 0 1 None [(''a'', 1)])\<lparr>context_set := True\<rparr>)
   \<and> snd (Worker_run_kernel demo_registry demo_format_exc 2 (demo_worker 1 1 None [(''a'', 1)])
       \<lparr>kr_table = 0, kr_shard = 0, kr_kernel = ''raising'', kr_kernel_args = Map.empty,
        kr_task_args = Map.empty\<rparr> \<lparr>kp_elapsed = 0, kp_error = []\<rparr>)
     = snd (demo_kernel_raising Map.empty Map.empty
              ((demo_worker 1 1 None [(''a'', 1)])\<lparr>context_set := True\<rparr>))"
proof -
  let ?t = "demo_table 1 None [(''a'', 1)]"
  let ?q = "\<lparr>kr_table = 0, kr_shard = 0, kr_kernel = ''raising'', kr_kernel_args = Map.empty,
        kr_task_args = Map.empty\<rparr>"
  have i0: "worker_id (demo_worker 0 1 None [(''a'', 1)]) \<noteq> - 1"
    and i1: "worker_id (demo_worker 1 1 None [(''a'', 1)]) \<noteq> - 1"
    by (simp_all add: demo_worker_def)
  have t0: "tables (demo_worker 0 1 None [(''a'', 1)]) (kr_table ?q) = Some (Some ?t)"
    and t1: "tables (demo_worker 1 1 None [(''a'', 1)]) (kr_table ?q) = Some (Some ?t)"
    by (simp_all add: demo_worker_def)
  have v: "valid_shard ?t (kr_shard ?q)"
    by (simp add: demo_table_def valid_shard_def)
  have o0: "Table_worker_for_shard ?t (kr_shard ?q)
              \<noteq> Inr (worker_id (demo_worker 0 1 None [(''a'', 1)]))"
    and o1: "Table_worker_for_shard ?t (kr_shard ?q)
              = Inr (worker_id (demo_worker 1 1 None [(''a'', 1)]))"
    by (simp_all add: Table_worker_for_shard_def demo_table_def valid_shard_def demo_worker_def)
  have r: "demo_registry (kr_kernel ?q) = Some demo_kernel_raising"
    by (simp add: demo_registry_def)
  from Worker_run_kernel_routing[OF i0 t0 v, of demo_registry demo_format_exc 2
      "\<lparr>kp_elapsed = 0, kp_error = []\<rparr>"] o0
    Worker_run_kernel_routing[OF i1 t1 v, of demo_registry demo_format_exc 2
      "\<lparr>kp_elapsed = 0, kp_error = []\<rparr>"] o1 r
  show ?thesis by simp
qed

text \<open>
  C6. For a \<^verbatim>\<open>RunKernel\<close> request on an owned shard, with a registered kernel and a fresh
  response: when the kernel raises a \<^verbatim>\<open>PyException\<close>, the handler still responds, with
  \<open>error\<close> the formatted exception (not empty when \<^verbatim>\<open>format_exc\<close> prints anything) and
  \<open>elapsed\<close> the timer's reading, and the worker is as the kernel left it when it
  raised: the handler tears nothing down. When the kernel returns, the response has an
  empty \<open>error\<close> and \<open>elapsed\<close> set.
\<close>

theorem Worker_run_kernel_failure_caught:
  assumes "worker_id w \<noteq> - 1"
    and "tables w (kr_table kreq) = Some (Some t)"
    and "valid_shard t (kr_shard kreq)"
    and "Table_worker_for_shard t (kr_shard kreq) = Inr (worker_id w)"
    and "registry (kr_kernel kreq) = Some k"
    and "kp_error resp = []"
  shows "(\<forall>exc w2. k (kr_kernel_args kreq) (kr_task_args kreq) (w\<lparr>context_set := True\<rparr>)
                    = (RaisedPyException exc, w2)
            \<longrightarrow> Worker_run_kernel registry format_exc elapsed w kreq resp
                  = (Inr \<lparr>kp_elapsed = elapsed, kp_error = format_exc exc\<rparr>, w2)
                \<and> (format_exc exc \<noteq> []
                    \<longrightarrow> kp_error (projr (fst (Worker_run_kernel registry format_exc elapsed w kreq resp)))
                          \<noteq> []))
       \<and> (\<forall>w2. k (kr_kernel_args kreq) (kr_task_args kreq) (w\<lparr>context_set := True\<rparr>)
                    = (Returned, w2)
            \<longrightarrow> Worker_run_kernel registry format_exc elapsed w kreq resp
                  = (Inr \<lparr>kp_elapsed = elapsed, kp_error = []\<rparr>, w2))"
proof -
  note e = Worker_run_kernel_owner[OF assms(1,2,3), of registry format_exc elapsed resp]
  have o: "shard_info t ! nat (kr_shard kreq) = worker_id w"
    using assms(3,4) by (simp add: Table_worker_for_shard_def)
  show ?thesis
    unfolding e using o assms(5,6) by auto
qed

theorem Worker_run_kernel_failure_caught_witness:
  "Worker_run_kernel demo_registry demo_format_exc 2 (demo_worker 1 1 None [(''a'', 1)])
       \<lparr>kr_table = 0, kr_shard = 0, kr_kernel = ''raising'', kr_kernel_args = Map.empty,
        kr_task_args = Map.empty\<rparr> \<lparr>kp_elapsed = 0, kp_error = []\<rparr>
     = (Inr \<lparr>kp_elapsed = 2, kp_error = ''Traceback: ValueError''\<rparr>,
        (demo_worker 1 1 None [(''a'', 1), (''k'', 1)])\<lparr>context_set := True\<rparr>)
   \<and> Worker_run_kernel demo_registry demo_format_exc 2 (demo_worker 1 1 None [(''a'', 1)])
       \<lparr>kr_table = 0, kr_shard = 0, kr_kernel = ''ok'', kr_kernel_args = Map.empty,
        kr_task_args = Map.empty\<rparr> \<lparr>kp_elapsed = 0, kp_error = []\<rparr>
     = (Inr \<lparr>kp_elapsed = 2, kp_error = []\<rparr>,
        (demo_worker 1 1 None [(''a'', 1)])\<lparr>context_set := True\<rparr>)"
proof -
  let ?w = "demo_worker 1 1 None [(''a'', 1)]"
  let ?t = "demo_table 1 None [(''a'', 1)]"
  let ?q = "\<lparr>kr_table = 0, kr_shard = 0, kr_kernel = ''raising'', kr_kernel_args = Map.empty,
        kr_task_args = Map.empty\<rparr>"
  let ?q2 = "\<lparr>kr_table = 0, kr_shard = 0, kr_kernel = ''ok'', kr_kernel_args = Map.empty,
        kr_task_args = Map.empty\<rparr>"
  let ?p = "\<lparr>kp_elapsed = 0, kp_error = []\<rparr>"
  have i: "worker_id ?w \<noteq> - 1" by (simp add: demo_worker_def)
  have t: "tables ?w (kr_table ?q) = Some (Some ?t)" and t2: "tables ?w (kr_table ?q2) = Some (Some ?t)"
    by (simp_all add: demo_worker_def)
  have v: "valid_shard ?t (kr_shard ?q)" and v2: "valid_shard ?t (kr_shard ?q2)"
    by (simp_all add: demo_table_def valid_shard_def)
  have o: "Table_worker_for_shard ?t (kr_shard ?q) = Inr (worker_id ?w)"
    and o2: "Table_worker_for_shard ?t (kr_shard ?q2) = Inr (worker_id ?w)"
    by (simp_all add: Table_worker_for_shard_def demo_table_def valid_shard_def demo_worker_def)
  have r: "demo_registry (kr_kernel ?q) = Some demo_kernel_raising"
    and r2: "demo_registry (kr_kernel ?q2) = Some demo_kernel_ok"
    by (simp_all add: demo_registry_def)
  have f: "kp_error ?p = []" by simp
  have k: "demo_kernel_raising (kr_kernel_args ?q) (kr_task_args ?q) (?w\<lparr>context_set := True\<rparr>)
           = (RaisedPyException ''ValueError'',
              (demo_worker 1 1 None [(''a'', 1), (''k'', 1)])\<lparr>context_set := True\<rparr>)"
    by (simp add: demo_kernel_raising_def Worker_put_def demo_worker_def demo_table_def
        Table_update_def valid_shard_def apply_remote_def)
  have k2: "demo_kernel_ok (kr_kernel_args ?q2) (kr_task_args ?q2) (?w\<lparr>context_set := True\<rparr>)
           = (Returned, ?w\<lparr>context_set := True\<rparr>)"
    by (simp add: demo_kernel_ok_def)
  from Worker_run_kernel_failure_caught[where registry = demo_registry
        and format_exc = demo_format_exc and elapsed = 2, OF i t v o r f] k
    Worker_run_kernel_failure_caught[where registry = demo_registry
        and format_exc = demo_format_exc and elapsed = 2, OF i t2 v2 o2 r2 f] k2
  show ?thesis by (simp add: demo_format_exc_def)
qed

section \<open>The \<^verbatim>\<open>Put\<close> handler\<close>

lemma map_of_store_at:
  "map_of sh k \<noteq> None \<Longrightarrow> map_of (store_at k v sh) = (map_of sh)(k \<mapsto> v)"
  by (induction sh) (auto simp: fun_eq_iff)

lemma map_of_apply_remote:
  "map_of (apply_remote r sh k v)
     = (map_of sh)(k \<mapsto> (case map_of sh k of None \<Rightarrow> v | Some old \<Rightarrow> merge_value r old v))"
proof (cases "map_of sh k")
  case None
  then show ?thesis
    by (auto simp: apply_remote_def fun_eq_iff map_add_def split: option.splits)
next
  case (Some old)
  then show ?thesis by (simp add: apply_remote_def map_of_store_at)
qed

lemma Table_update_valid:
  "valid_shard t s \<Longrightarrow>
   Table_update t s k v
     = Inr (t\<lparr>shards := (shards t)[nat s := apply_remote (reducer t) (shards t ! nat s) k v]\<rparr>)"
  by (simp add: Table_update_def)

lemma put_loop_valid:
  "valid_shard t s \<Longrightarrow>
   put_loop t s ps
     = (None, t\<lparr>shards := (shards t)[nat s :=
                   foldl (\<lambda>sh p. apply_remote (reducer t) sh (fst p) (snd p))
                     (shards t ! nat s) ps]\<rparr>)"
proof (induction ps arbitrary: t)
  case Nil
  then show ?case by simp
next
  case (Cons p ps)
  let ?t1 = "t\<lparr>shards := (shards t)[nat s :=
                 apply_remote (reducer t) (shards t ! nat s) (fst p) (snd p)]\<rparr>"
  have v1: "valid_shard ?t1 s" using Cons.prems by (simp add: valid_shard_def)
  have n: "nat s < length (shards t)" using Cons.prems by (simp add: valid_shard_def)
  have "put_loop t s (p # ps) = put_loop ?t1 s ps"
    using Cons.prems by (simp add: Table_update_valid)
  also have "\<dots> = (None, ?t1\<lparr>shards := (shards ?t1)[nat s :=
                   foldl (\<lambda>sh p. apply_remote (reducer ?t1) sh (fst p) (snd p))
                     (shards ?t1 ! nat s) ps]\<rparr>)"
    by (rule Cons.IH[OF v1])
  finally show ?case using n by simp
qed

lemma map_of_foldl_apply_remote:
  "map_of (foldl (\<lambda>sh p. apply_remote r sh (fst p) (snd p)) sh ps) k
     = merge_all r (map_of sh k) (map snd (filter (\<lambda>p. fst p = k) ps))"
proof (induction ps arbitrary: sh)
  case Nil
  then show ?case by simp
next
  case (Cons p ps)
  show ?case
    by (simp add: Cons.IH map_of_apply_remote)
qed

text \<open>
  C2. A \<^verbatim>\<open>Put\<close> request on a registered table and one of its shards is answered after
  every entry of the batch has been applied, in the order of the batch, to the addressed
  shard and to no other. Each entry is an unconditional merge: the value stored at the
  key afterwards is \<open>reducer(old, v)\<close> when \<open>old\<close> was stored there and \<open>v\<close> otherwise,
  so that for every key the stored value after the batch is the merge of the values the
  batch holds for it, in order, into what was stored before.
\<close>

theorem Worker_put_applies_batch:
  assumes "tables w (td_table req) = Some (Some t)"
    and "valid_shard t (td_shard req)"
  shows "\<exists>t'. Worker_put w req = (Inr (), w\<lparr>tables := (tables w)(td_table req \<mapsto> Some t')\<rparr>)
           \<and> shards t' ! nat (td_shard req)
               = foldl (\<lambda>sh p. apply_remote (reducer t) sh (fst p) (snd p))
                   (shards t ! nat (td_shard req)) (td_kv_data req)
           \<and> (\<forall>k. map_of (shards t' ! nat (td_shard req)) k
                 = merge_all (reducer t) (map_of (shards t ! nat (td_shard req)) k)
                     (map snd (filter (\<lambda>p. fst p = k) (td_kv_data req))))
           \<and> (\<forall>j. j \<noteq> nat (td_shard req) \<longrightarrow> shards t' ! j = shards t ! j)
           \<and> length (shards t') = length (shards t)
           \<and> (\<forall>sh k v. map_of (apply_remote (reducer t) sh k v) k
                 = Some (case map_of sh k of None \<Rightarrow> v
                         | Some old \<Rightarrow> merge_value (reducer t) old v))"
proof -
  let ?s = "nat (td_shard req)"
  let ?sh = "foldl (\<lambda>sh p. apply_remote (reducer t) sh (fst p) (snd p))
               (shards t ! ?s) (td_kv_data req)"
  let ?t' = "t\<lparr>shards := (shards t)[?s := ?sh]\<rparr>"
  have n: "?s < length (shards t)" using assms(2) by (simp add: valid_shard_def)
  have p: "Worker_put w req = (Inr (), w\<lparr>tables := (tables w)(td_table req \<mapsto> Some ?t')\<rparr>)"
    using assms(1) put_loop_valid[OF assms(2), of "td_kv_data req"]
    by (simp add: Worker_put_def)
  have a: "shards ?t' ! ?s = ?sh" using n by simp
  have b: "\<forall>k. map_of (shards ?t' ! ?s) k
                 = merge_all (reducer t) (map_of (shards t ! ?s) k)
                     (map snd (filter (\<lambda>p. fst p = k) (td_kv_data req)))"
    unfolding a by (simp add: map_of_foldl_apply_remote)
  have c: "\<forall>j. j \<noteq> ?s \<longrightarrow> shards ?t' ! j = shards t ! j" by simp
  have d: "length (shards ?t') = length (shards t)" by simp
  have e: "\<forall>sh k v. map_of (apply_remote (reducer t) sh k v) k
                 = Some (case map_of sh k of None \<Rightarrow> v
                         | Some old \<Rightarrow> merge_value (reducer t) old v)"
    by (simp add: map_of_apply_remote)
  from p a b c d e show ?thesis by blast
qed

theorem Worker_put_applies_batch_witness:
  "\<exists>t'. Worker_put (demo_worker 0 0 (Some scalar_add) [(''a'', 1)])
      \<lparr>td_source = 1, td_table = 0, td_shard = 0, td_done = True, td_missing_key = False,
       td_kv_data = [(''a'', 2), (''b'', 5), (''a'', 4)]\<rparr>
     = (Inr (), (demo_worker 0 0 (Some scalar_add) [(''a'', 1)])
                  \<lparr>tables := [0 \<mapsto> Some t']\<rparr>)
     \<and> map_of (shards t' ! 0) ''a'' = Some 7
     \<and> map_of (shards t' ! 0) ''b'' = Some 5
     \<and> map_of (shards t' ! 0) ''c'' = None"
proof -
  let ?w = "demo_worker 0 0 (Some scalar_add) [(''a'', 1)]"
  let ?t = "demo_table 0 (Some scalar_add) [(''a'', 1)]"
  let ?req = "\<lparr>td_source = 1, td_table = 0, td_shard = 0, td_done = True,
       td_missing_key = False, td_kv_data = [(''a'', 2 :: npy_int), (''b'', 5), (''a'', 4)]\<rparr>"
  have t: "tables ?w (td_table ?req) = Some (Some ?t)" by (simp add: demo_worker_def)
  have v: "valid_shard ?t (td_shard ?req)" by (simp add: demo_table_def valid_shard_def)
  from Worker_put_applies_batch[OF t v] obtain t' where
    p: "Worker_put ?w ?req = (Inr (), ?w\<lparr>tables := (tables ?w)(td_table ?req \<mapsto> Some t')\<rparr>)"
    and m: "\<And>k. map_of (shards t' ! nat (td_shard ?req)) k
                 = merge_all (reducer ?t) (map_of (shards ?t ! nat (td_shard ?req)) k)
                     (map snd (filter (\<lambda>p. fst p = k) (td_kv_data ?req)))"
    by blast
  have w: "?w\<lparr>tables := (tables ?w)(td_table ?req \<mapsto> Some t')\<rparr> = ?w\<lparr>tables := [0 \<mapsto> Some t']\<rparr>"
    by (simp add: demo_worker_def)
  have a: "map_of (shards t' ! 0) ''a'' = Some 7"
    using m[of "''a''"] by (simp add: demo_table_def merge_value_def scalar_add_def)
  have b: "map_of (shards t' ! 0) ''b'' = Some 5"
    using m[of "''b''"] by (simp add: demo_table_def merge_value_def scalar_add_def)
  have c: "map_of (shards t' ! 0) ''c'' = None"
    using m[of "''c''"] by (simp add: demo_table_def merge_value_def scalar_add_def)
  from p w a b c show ?thesis by auto
qed

section \<open>Reducers and the order of merges\<close>

lemma scalar_maximum_ac: "assoc_commute scalar_maximum"
  unfolding assoc_commute_def scalar_maximum_def
  by (auto dest: sint_eq_imp_eq antisym)

lemma scalar_minimum_ac: "assoc_commute scalar_minimum"
  unfolding assoc_commute_def scalar_minimum_def
  by (auto dest: sint_eq_imp_eq)

lemma scalar_add_ac: "assoc_commute scalar_add"
  unfolding assoc_commute_def scalar_add_def by (simp add: ac_simps)

lemma scalar_multiply_ac: "assoc_commute scalar_multiply"
  unfolding assoc_commute_def scalar_multiply_def by (simp add: ac_simps)

lemma scalar_and_ac: "assoc_commute scalar_and"
  unfolding assoc_commute_def scalar_and_def by (simp add: ac_simps)

lemma scalar_or_ac: "assoc_commute scalar_or"
  unfolding assoc_commute_def scalar_or_def by (simp add: ac_simps)

lemma scalar_xor_ac: "assoc_commute scalar_xor"
  unfolding assoc_commute_def scalar_xor_def by (simp add: ac_simps)

lemma merge_all_fold:
  "merge_all r cur vs
     = fold (\<lambda>v acc. Some (case acc of None \<Rightarrow> v | Some old \<Rightarrow> merge_value r old v)) vs cur"
  by (induction vs arbitrary: cur) simp_all

lemma merge_all_append:
  "merge_all r cur (vs @ ws) = merge_all r (merge_all r cur vs) ws"
  by (induction vs arbitrary: cur) simp_all

lemma merge_all_permuted:
  assumes "assoc_commute f" and "mset vs = mset ws"
  shows "merge_all (Some f) cur vs = merge_all (Some f) cur ws"
proof -
  let ?h = "\<lambda>v acc. Some (case acc of None \<Rightarrow> v | Some old \<Rightarrow> merge_value (Some f) old v)"
  have cm: "\<And>a b. f a b = f b a" and as: "\<And>a b c. f (f a b) c = f a (f b c)"
    using assms(1) unfolding assoc_commute_def by blast+
  have sw: "f (f x y) z = f (f x z) y" for x y z
    by (metis as cm)
  have "?h x \<circ> ?h y = ?h y \<circ> ?h x" for x y
  proof
    fix acc
    show "(?h x \<circ> ?h y) acc = (?h y \<circ> ?h x) acc"
    proof (cases acc)
      case None
      then show ?thesis using cm[of y x] by (simp add: merge_value_def)
    next
      case (Some a)
      then show ?thesis using sw[of a y x] by (simp add: merge_value_def)
    qed
  qed
  then have "fold ?h vs = fold ?h ws"
    using assms(2) by (intro fold_multiset_equiv) auto
  then show ?thesis by (simp add: merge_all_fold)
qed


lemma BINARY_DENSE_LOOP_spec:
  "i \<le> n \<Longrightarrow> n \<le> length a1 \<Longrightarrow> n \<le> length a2 \<Longrightarrow>
   \<exists>r. BINARY_DENSE_LOOP body i n a1 a2 = Some r \<and> length r = length a1
     \<and> (\<forall>j < length a1. r ! j = (if i \<le> j \<and> j < n then body (a1 ! j) (a2 ! j) else a1 ! j))"
proof (induction "n - i" arbitrary: i a1)
  case 0
  then have "\<not> i < n" by simp
  then have "BINARY_DENSE_LOOP body i n a1 a2 = Some a1"
    by (subst BINARY_DENSE_LOOP.simps) simp
  then show ?case using 0 by auto
next
  case (Suc d)
  then have lt: "i < n" and d: "d = n - (i + 1)" by simp_all
  let ?a = "a1[i := body (a1 ! i) (a2 ! i)]"
  have st: "BINARY_DENSE_LOOP body i n a1 a2 = BINARY_DENSE_LOOP body (i + 1) n ?a a2"
    using lt Suc.prems by (subst BINARY_DENSE_LOOP.simps) simp
  have "i + 1 \<le> n" "n \<le> length ?a" using lt Suc.prems by simp_all
  from Suc.hyps(1)[OF d this Suc.prems(3)] obtain r where
    r: "BINARY_DENSE_LOOP body (i + 1) n ?a a2 = Some r" "length r = length ?a"
       "\<forall>j < length ?a. r ! j = (if i + 1 \<le> j \<and> j < n then body (?a ! j) (a2 ! j) else ?a ! j)"
    by blast
  have "\<forall>j < length a1. r ! j = (if i \<le> j \<and> j < n then body (a1 ! j) (a2 ! j) else a1 ! j)"
  proof (intro allI impI)
    fix j assume j: "j < length a1"
    show "r ! j = (if i \<le> j \<and> j < n then body (a1 ! j) (a2 ! j) else a1 ! j)"
    proof (cases "j = i")
      case True
      then show ?thesis using r(3) j lt by simp
    next
      case False
      then show ?thesis using r(3) j by auto
    qed
  qed
  then show ?case using st r(1,2) by simp
qed

lemma BINARY_DENSE_LOOP_map2:
  assumes "length a1 = n" and "length a2 = n"
  shows "BINARY_DENSE_LOOP body 0 n a1 a2 = Some (map2 body a1 a2)"
proof -
  from BINARY_DENSE_LOOP_spec[of 0 n a1 a2 body] assms obtain r where
    r: "BINARY_DENSE_LOOP body 0 n a1 a2 = Some r" "length r = n"
       "\<forall>j < n. r ! j = body (a1 ! j) (a2 ! j)"
    by auto
  have "r = map2 body a1 a2"
    using r(2,3) assms by (intro nth_equalityI) simp_all
  with r(1) show ?thesis by simp
qed

lemma map2_commute:
  "(\<And>a b. f a b = f b a) \<Longrightarrow> length xs = length ys \<Longrightarrow> map2 f xs ys = map2 f ys xs"
  by (intro nth_equalityI) simp_all

lemma map2_assoc:
  "(\<And>a b c. f (f a b) c = f a (f b c)) \<Longrightarrow> length xs = length ys \<Longrightarrow> length ys = length zs
   \<Longrightarrow> map2 f (map2 f xs ys) zs = map2 f xs (map2 f ys zs)"
  by (intro nth_equalityI) simp_all

lemma dense_maximum_map2:
  "length a1 = n \<Longrightarrow> length a2 = n \<Longrightarrow> dense_maximum a1 a2 n = Some (map2 scalar_maximum a1 a2)"
  unfolding dense_maximum_def scalar_maximum_def by (rule BINARY_DENSE_LOOP_map2)


lemma Worker_put_valid:
  assumes "tables w (td_table req) = Some (Some t)" and "valid_shard t (td_shard req)"
  shows "Worker_put w req
    = (Inr (), w\<lparr>tables := (tables w)(td_table req \<mapsto>
         Some (t\<lparr>shards := (shards t)[nat (td_shard req) :=
                  foldl (\<lambda>sh p. apply_remote (reducer t) sh (fst p) (snd p))
                    (shards t ! nat (td_shard req)) (td_kv_data req)]\<rparr>))\<rparr>)"
  using assms(1) put_loop_valid[OF assms(2), of "td_kv_data req"]
  by (simp add: Worker_put_def)

lemma Worker_get_valid:
  assumes "tables w (gr_table g) = Some (Some t)" and "valid_shard t (gr_shard g)"
  shows "fst (Worker_get w g resp)
    = Inr (case map_of (shards t ! nat (gr_shard g)) (gr_key g) of
             None \<Rightarrow> resp\<lparr>td_source := worker_id w, td_table := gr_table g, td_shard := - 1,
                           td_done := True, td_missing_key := True\<rparr>
           | Some v \<Rightarrow> resp\<lparr>td_source := worker_id w, td_table := gr_table g, td_shard := - 1,
                           td_done := True, td_missing_key := False,
                           td_kv_data := td_kv_data resp @ [(gr_key g, v)]\<rparr>)"
  using assms
  by (cases "map_of (shards t ! nat (gr_shard g)) (gr_key g)")
     (simp_all add: Worker_get_def tables_at_present Table_contains_def Table_get_def)

lemma two_puts_stored:
  assumes t: "tables w tid = Some (Some t)" and v: "valid_shard t s"
    and p: "td_table p = tid" "td_shard p = s"
    and q: "td_table q = tid" "td_shard q = s"
  shows "\<exists>t2. tables (snd (Worker_put (snd (Worker_put w p)) q)) tid = Some (Some t2)
           \<and> worker_id (snd (Worker_put (snd (Worker_put w p)) q)) = worker_id w
           \<and> valid_shard t2 s
           \<and> (\<forall>k. map_of (shards t2 ! nat s) k
                 = merge_all (reducer t) (map_of (shards t ! nat s) k)
                     (map snd (filter (\<lambda>e. fst e = k) (td_kv_data p @ td_kv_data q))))"
proof -
  let ?step = "\<lambda>sh e. apply_remote (reducer t) sh (fst e) (snd e)"
  let ?t1 = "t\<lparr>shards := (shards t)[nat s := foldl ?step (shards t ! nat s) (td_kv_data p)]\<rparr>"
  let ?w1 = "w\<lparr>tables := (tables w)(tid \<mapsto> Some ?t1)\<rparr>"
  have n: "nat s < length (shards t)" using v by (simp add: valid_shard_def)
  have w1: "Worker_put w p = (Inr (), ?w1)"
    using Worker_put_valid[of w p t] t v p by simp
  have t1: "tables ?w1 (td_table q) = Some (Some ?t1)" using q by simp
  have v1: "valid_shard ?t1 (td_shard q)" using v q by (simp add: valid_shard_def)
  let ?t2 = "?t1\<lparr>shards := (shards ?t1)[nat s := foldl ?step (shards ?t1 ! nat s) (td_kv_data q)]\<rparr>"
  have w2: "Worker_put ?w1 q = (Inr (), ?w1\<lparr>tables := (tables ?w1)(tid \<mapsto> Some ?t2)\<rparr>)"
    using Worker_put_valid[OF t1 v1] q by simp
  have s2: "shards ?t2 ! nat s = foldl ?step (shards t ! nat s) (td_kv_data p @ td_kv_data q)"
    using n by simp
  have m: "\<forall>k. map_of (shards ?t2 ! nat s) k
                 = merge_all (reducer t) (map_of (shards t ! nat s) k)
                     (map snd (filter (\<lambda>e. fst e = k) (td_kv_data p @ td_kv_data q)))"
    unfolding s2 by (simp only: map_of_foldl_apply_remote) simp
  have v2: "valid_shard ?t2 s" using v by (simp add: valid_shard_def)
  have a: "tables (snd (Worker_put (snd (Worker_put w p)) q)) tid = Some (Some ?t2)"
    and b: "worker_id (snd (Worker_put (snd (Worker_put w p)) q)) = worker_id w"
    using w1 w2 by simp_all
  from a b v2 m show ?thesis by blast
qed

lemma puts_commute:
  assumes t: "tables w tid = Some (Some t)" and v: "valid_shard t s"
    and r: "reducer t = Some f" and ac: "assoc_commute f"
    and p: "td_table p = tid" "td_shard p = s"
    and q: "td_table q = tid" "td_shard q = s"
    and g: "gr_table g = tid" "gr_shard g = s"
  shows "fst (Worker_get (snd (Worker_put (snd (Worker_put w p)) q)) g resp)
       = fst (Worker_get (snd (Worker_put (snd (Worker_put w q)) p)) g resp)"
proof -
  from two_puts_stored[OF t v p q] obtain t2 where
    a: "tables (snd (Worker_put (snd (Worker_put w p)) q)) tid = Some (Some t2)"
    and ai: "worker_id (snd (Worker_put (snd (Worker_put w p)) q)) = worker_id w"
    and av: "valid_shard t2 s"
    and am: "\<And>k. map_of (shards t2 ! nat s) k
                 = merge_all (reducer t) (map_of (shards t ! nat s) k)
                     (map snd (filter (\<lambda>e. fst e = k) (td_kv_data p @ td_kv_data q)))"
    by blast
  from two_puts_stored[OF t v q p] obtain t3 where
    b: "tables (snd (Worker_put (snd (Worker_put w q)) p)) tid = Some (Some t3)"
    and bi: "worker_id (snd (Worker_put (snd (Worker_put w q)) p)) = worker_id w"
    and bv: "valid_shard t3 s"
    and bm: "\<And>k. map_of (shards t3 ! nat s) k
                 = merge_all (reducer t) (map_of (shards t ! nat s) k)
                     (map snd (filter (\<lambda>e. fst e = k) (td_kv_data q @ td_kv_data p)))"
    by blast
  have "mset (map snd (filter (\<lambda>e. fst e = k) (td_kv_data p @ td_kv_data q)))
      = mset (map snd (filter (\<lambda>e. fst e = k) (td_kv_data q @ td_kv_data p)))" for k
    by simp
  then have e: "map_of (shards t2 ! nat s) k = map_of (shards t3 ! nat s) k" for k
    unfolding am bm r by (rule merge_all_permuted[OF ac])
  let ?wa = "snd (Worker_put (snd (Worker_put w p)) q)"
  let ?wb = "snd (Worker_put (snd (Worker_put w q)) p)"
  have ga: "fst (Worker_get ?wa g resp)
      = Inr (case map_of (shards t2 ! nat (gr_shard g)) (gr_key g) of
             None \<Rightarrow> resp\<lparr>td_source := worker_id ?wa, td_table := gr_table g, td_shard := - 1,
                           td_done := True, td_missing_key := True\<rparr>
           | Some v \<Rightarrow> resp\<lparr>td_source := worker_id ?wa, td_table := gr_table g, td_shard := - 1,
                           td_done := True, td_missing_key := False,
                           td_kv_data := td_kv_data resp @ [(gr_key g, v)]\<rparr>)"
    using a av g by (intro Worker_get_valid) simp_all
  have gb: "fst (Worker_get ?wb g resp)
      = Inr (case map_of (shards t3 ! nat (gr_shard g)) (gr_key g) of
             None \<Rightarrow> resp\<lparr>td_source := worker_id ?wb, td_table := gr_table g, td_shard := - 1,
                           td_done := True, td_missing_key := True\<rparr>
           | Some v \<Rightarrow> resp\<lparr>td_source := worker_id ?wb, td_table := gr_table g, td_shard := - 1,
                           td_done := True, td_missing_key := False,
                           td_kv_data := td_kv_data resp @ [(gr_key g, v)]\<rparr>)"
    using b bv g by (intro Worker_get_valid) simp_all
  show ?thesis
    unfolding ga gb ai bi using e[of "gr_key g"] g by simp
qed

lemma dense_loop_ac:
  assumes "assoc_commute body"
  shows "dense_assoc_commute (\<lambda>a b n. BINARY_DENSE_LOOP body 0 n a b)"
proof -
  have cm: "\<And>x y. body x y = body y x"
    and as: "\<And>x y z. body (body x y) z = body x (body y z)"
    using assms unfolding assoc_commute_def by blast+
  show ?thesis
    unfolding dense_assoc_commute_def
  proof (intro allI impI)
    fix n :: nat and a b c :: "npy_int list"
    assume l: "length a = n \<and> length b = n \<and> length c = n"
    have ab: "BINARY_DENSE_LOOP body 0 n a b = Some (map2 body a b)"
      and ba: "BINARY_DENSE_LOOP body 0 n b a = Some (map2 body b a)"
      and bc: "BINARY_DENSE_LOOP body 0 n b c = Some (map2 body b c)"
      using l by (simp_all add: BINARY_DENSE_LOOP_map2)
    have abc: "BINARY_DENSE_LOOP body 0 n (map2 body a b) c = Some (map2 body (map2 body a b) c)"
      and abc': "BINARY_DENSE_LOOP body 0 n a (map2 body b c) = Some (map2 body a (map2 body b c))"
      using l by (simp_all add: BINARY_DENSE_LOOP_map2)
    have 1: "\<exists>r. BINARY_DENSE_LOOP body 0 n a b = Some r \<and> length r = n"
      using ab l by simp
    have 2: "BINARY_DENSE_LOOP body 0 n a b = BINARY_DENSE_LOOP body 0 n b a"
      using ab ba l map2_commute[of body a b, OF cm] by simp
    have 3: "Option.bind (BINARY_DENSE_LOOP body 0 n a b) (\<lambda>m. BINARY_DENSE_LOOP body 0 n m c)
           = Option.bind (BINARY_DENSE_LOOP body 0 n b c) (\<lambda>m. BINARY_DENSE_LOOP body 0 n a m)"
      using ab bc abc abc' l map2_assoc[of body a b c, OF as] by simp
    from 1 2 3 show "(\<exists>r. BINARY_DENSE_LOOP body 0 n a b = Some r \<and> length r = n)
        \<and> BINARY_DENSE_LOOP body 0 n a b = BINARY_DENSE_LOOP body 0 n b a
        \<and> Option.bind (BINARY_DENSE_LOOP body 0 n a b) (\<lambda>m. BINARY_DENSE_LOOP body 0 n m c)
           = Option.bind (BINARY_DENSE_LOOP body 0 n b c) (\<lambda>m. BINARY_DENSE_LOOP body 0 n a m)"
      by blast
  qed
qed

lemma dense_maximum_ac: "dense_assoc_commute dense_maximum"
proof -
  have "assoc_commute (\<lambda>in1 in2 :: npy_int. if sint in2 \<le> sint in1 then in1 else in2)"
    unfolding assoc_commute_def by (auto dest: sint_eq_imp_eq antisym)
  then have "dense_assoc_commute
     (\<lambda>a b n. BINARY_DENSE_LOOP (\<lambda>in1 in2. if sint in2 \<le> sint in1 then in1 else in2) 0 n a b)"
    by (rule dense_loop_ac)
  then show ?thesis unfolding dense_assoc_commute_def dense_maximum_def .
qed

lemma dense_minimum_ac: "dense_assoc_commute dense_minimum"
proof -
  have "assoc_commute (\<lambda>in1 in2 :: npy_int. if sint in1 \<le> sint in2 then in1 else in2)"
    unfolding assoc_commute_def by (auto dest: sint_eq_imp_eq antisym)
  then have "dense_assoc_commute
     (\<lambda>a b n. BINARY_DENSE_LOOP (\<lambda>in1 in2. if sint in1 \<le> sint in2 then in1 else in2) 0 n a b)"
    by (rule dense_loop_ac)
  then show ?thesis unfolding dense_assoc_commute_def dense_minimum_def .
qed

lemma dense_add_ac: "dense_assoc_commute dense_add"
proof -
  have "assoc_commute (\<lambda>in1 in2 :: npy_int. in1 + in2)"
    unfolding assoc_commute_def by (simp add: ac_simps)
  then have "dense_assoc_commute (\<lambda>a b n. BINARY_DENSE_LOOP (\<lambda>in1 in2. in1 + in2) 0 n a b)"
    by (rule dense_loop_ac)
  then show ?thesis unfolding dense_assoc_commute_def dense_add_def .
qed

lemma dense_multiply_ac: "dense_assoc_commute dense_multiply"
proof -
  have "assoc_commute (\<lambda>in1 in2 :: npy_int. in1 * in2)"
    unfolding assoc_commute_def by (simp add: ac_simps)
  then have "dense_assoc_commute (\<lambda>a b n. BINARY_DENSE_LOOP (\<lambda>in1 in2. in1 * in2) 0 n a b)"
    by (rule dense_loop_ac)
  then show ?thesis unfolding dense_assoc_commute_def dense_multiply_def .
qed

lemma dense_xor_ac: "dense_assoc_commute dense_xor"
proof -
  have "assoc_commute (\<lambda>in1 in2 :: npy_int. in1 XOR in2)"
    unfolding assoc_commute_def by (simp add: ac_simps)
  then have "dense_assoc_commute (\<lambda>a b n. BINARY_DENSE_LOOP (\<lambda>in1 in2. in1 XOR in2) 0 n a b)"
    by (rule dense_loop_ac)
  then show ?thesis unfolding dense_assoc_commute_def dense_xor_def .
qed

lemma dense_and_ac: "dense_assoc_commute dense_and"
proof -
  have "assoc_commute (\<lambda>in1 in2 :: npy_int. if in1 \<noteq> 0 \<and> in2 \<noteq> 0 then 1 else 0)"
    unfolding assoc_commute_def by auto
  then have "dense_assoc_commute
     (\<lambda>a b n. BINARY_DENSE_LOOP (\<lambda>in1 in2. if in1 \<noteq> 0 \<and> in2 \<noteq> 0 then 1 else 0) 0 n a b)"
    by (rule dense_loop_ac)
  then show ?thesis unfolding dense_assoc_commute_def dense_and_def .
qed

lemma dense_or_ac: "dense_assoc_commute dense_or"
proof -
  have "assoc_commute (\<lambda>in1 in2 :: npy_int. if in1 \<noteq> 0 \<or> in2 \<noteq> 0 then 1 else 0)"
    unfolding assoc_commute_def by auto
  then have "dense_assoc_commute
     (\<lambda>a b n. BINARY_DENSE_LOOP (\<lambda>in1 in2. if in1 \<noteq> 0 \<or> in2 \<noteq> 0 then 1 else 0) 0 n a b)"
    by (rule dense_loop_ac)
  then show ?thesis unfolding dense_assoc_commute_def dense_or_def .
qed

lemma dense_replace_eq:
  "length a = n \<Longrightarrow> length b = n \<Longrightarrow> dense_replace a b n = Some b"
proof -
  assume l: "length a = n" "length b = n"
  have "map2 (\<lambda>in1 in2. in2) a b = b"
    using l by (intro nth_equalityI) simp_all
  then show ?thesis using l by (simp add: dense_replace_def BINARY_DENSE_LOOP_map2)
qed

lemma merge_all_replace:
  "vs \<noteq> [] \<Longrightarrow> merge_all (Some scalar_replace) cur vs = Some (last vs)"
proof (induction vs arbitrary: cur)
  case Nil
  then show ?case by simp
next
  case (Cons v vs)
  show ?case
  proof (cases "vs = []")
    case True
    then show ?thesis
      by (cases cur) (simp_all add: merge_value_def scalar_replace_def)
  next
    case False
    then show ?thesis using Cons.IH[OF False] by simp
  qed
qed

lemma merge_all_null_reducer:
  "vs \<noteq> [] \<Longrightarrow> merge_all None cur vs = Some (last vs)"
proof (induction vs arbitrary: cur)
  case Nil
  then show ?case by simp
next
  case (Cons v vs)
  show ?case
  proof (cases "vs = []")
    case True
    then show ?thesis
      by (cases cur) (simp_all add: merge_value_def)
  next
    case False
    then show ?thesis using Cons.IH[OF False] by simp
  qed
qed


lemma updates_for_Cons:
  "updates_for k (p # ps) = map snd (filter (\<lambda>e. fst e = k) (td_kv_data p)) @ updates_for k ps"
  by (simp add: updates_for_def)

lemma put_all_stored:
  assumes "tables w tid = Some (Some t)" and "valid_shard t s"
    and "\<forall>p \<in> set ps. td_table p = tid \<and> td_shard p = s"
  shows "\<exists>t2. tables (put_all w ps) tid = Some (Some t2)
           \<and> worker_id (put_all w ps) = worker_id w
           \<and> valid_shard t2 s
           \<and> (\<forall>k. map_of (shards t2 ! nat s) k
                 = merge_all (reducer t) (map_of (shards t ! nat s) k) (updates_for k ps))"
  using assms
proof (induction ps arbitrary: w t)
  case Nil
  then show ?case by (simp add: updates_for_def)
next
  case (Cons p ps)
  let ?step = "\<lambda>sh e. apply_remote (reducer t) sh (fst e) (snd e)"
  let ?t1 = "t\<lparr>shards := (shards t)[nat s := foldl ?step (shards t ! nat s) (td_kv_data p)]\<rparr>"
  let ?w1 = "w\<lparr>tables := (tables w)(tid \<mapsto> Some ?t1)\<rparr>"
  have ad: "td_table p = tid" "td_shard p = s" using Cons.prems(3) by simp_all
  have n: "nat s < length (shards t)" using Cons.prems(2) by (simp add: valid_shard_def)
  have w1: "Worker_put w p = (Inr (), ?w1)"
    using Worker_put_valid[of w p t] Cons.prems(1,2) ad by simp
  have t1: "tables ?w1 tid = Some (Some ?t1)" by simp
  have v1: "valid_shard ?t1 s" using Cons.prems(2) by (simp add: valid_shard_def)
  have r1: "\<forall>p \<in> set ps. td_table p = tid \<and> td_shard p = s" using Cons.prems(3) by simp
  from Cons.IH[OF t1 v1 r1] obtain t2 where
    a: "tables (put_all ?w1 ps) tid = Some (Some t2)"
    and b: "worker_id (put_all ?w1 ps) = worker_id ?w1"
    and c: "valid_shard t2 s"
    and d: "\<And>k. map_of (shards t2 ! nat s) k
                 = merge_all (reducer ?t1) (map_of (shards ?t1 ! nat s) k) (updates_for k ps)"
    by blast
  have m1: "map_of (shards ?t1 ! nat s) k
            = merge_all (reducer t) (map_of (shards t ! nat s) k)
                (map snd (filter (\<lambda>e. fst e = k) (td_kv_data p)))" for k
    using n by (simp add: map_of_foldl_apply_remote)
  have e: "map_of (shards t2 ! nat s) k
            = merge_all (reducer t) (map_of (shards t ! nat s) k) (updates_for k (p # ps))" for k
    unfolding d m1 updates_for_Cons by (simp add: merge_all_append)
  have pa: "put_all w (p # ps) = put_all ?w1 ps" using w1 by simp
  show ?case unfolding pa using a b c e by auto
qed

lemma Worker_get_stored:
  assumes "tables w (gr_table g) = Some (Some t)" and "valid_shard t (gr_shard g)"
    and "map_of (shards t ! nat (gr_shard g)) (gr_key g) = m"
  shows "fst (Worker_get w g resp)
    = Inr (case m of
             None \<Rightarrow> resp\<lparr>td_source := worker_id w, td_table := gr_table g, td_shard := - 1,
                           td_done := True, td_missing_key := True\<rparr>
           | Some v \<Rightarrow> resp\<lparr>td_source := worker_id w, td_table := gr_table g, td_shard := - 1,
                           td_done := True, td_missing_key := False,
                           td_kv_data := td_kv_data resp @ [(gr_key g, v)]\<rparr>)"
  using Worker_get_valid[OF assms(1,2), of resp] assms(3) by simp

lemma Worker_get_after_puts:
  assumes t: "tables w tid = Some (Some t)" and v: "valid_shard t s"
    and ps: "\<forall>p \<in> set ps. td_table p = tid \<and> td_shard p = s"
    and g: "gr_table g = tid" "gr_shard g = s"
  shows "fst (Worker_get (put_all w ps) g resp)
    = Inr (case merge_all (reducer t) (map_of (shards t ! nat s) (gr_key g))
                  (updates_for (gr_key g) ps) of
             None \<Rightarrow> resp\<lparr>td_source := worker_id w, td_table := tid, td_shard := - 1,
                           td_done := True, td_missing_key := True\<rparr>
           | Some v \<Rightarrow> resp\<lparr>td_source := worker_id w, td_table := tid, td_shard := - 1,
                           td_done := True, td_missing_key := False,
                           td_kv_data := td_kv_data resp @ [(gr_key g, v)]\<rparr>)"
proof -
  from put_all_stored[OF t v ps] obtain t2 where
    a: "tables (put_all w ps) tid = Some (Some t2)"
    and b: "worker_id (put_all w ps) = worker_id w"
    and c: "valid_shard t2 s"
    and d: "\<And>k. map_of (shards t2 ! nat s) k
                 = merge_all (reducer t) (map_of (shards t ! nat s) k) (updates_for k ps)"
    by blast
  have "fst (Worker_get (put_all w ps) g resp)
    = Inr (case merge_all (reducer t) (map_of (shards t ! nat s) (gr_key g))
                  (updates_for (gr_key g) ps) of
             None \<Rightarrow> resp\<lparr>td_source := worker_id (put_all w ps), td_table := gr_table g,
                           td_shard := - 1, td_done := True, td_missing_key := True\<rparr>
           | Some v \<Rightarrow> resp\<lparr>td_source := worker_id (put_all w ps), td_table := gr_table g,
                           td_shard := - 1, td_done := True, td_missing_key := False,
                           td_kv_data := td_kv_data resp @ [(gr_key g, v)]\<rparr>)"
    using a c g d[of "gr_key g"] by (intro Worker_get_stored) simp_all
  then show ?thesis unfolding b g(1) .
qed

lemma puts_any_order:
  assumes t: "tables w tid = Some (Some t)" and v: "valid_shard t s"
    and r: "reducer t = Some f" and ac: "assoc_commute f"
    and ps: "\<forall>p \<in> set ps. td_table p = tid \<and> td_shard p = s"
    and qs: "\<forall>p \<in> set qs. td_table p = tid \<and> td_shard p = s"
    and same: "mset (concat (map td_kv_data ps)) = mset (concat (map td_kv_data qs))"
    and g: "gr_table g = tid" "gr_shard g = s"
  shows "fst (Worker_get (put_all w ps) g resp) = fst (Worker_get (put_all w qs) g resp)"
proof -
  have "mset (updates_for (gr_key g) ps) = mset (updates_for (gr_key g) qs)"
    using same by (simp add: updates_for_def)
  then have "merge_all (Some f) (map_of (shards t ! nat s) (gr_key g)) (updates_for (gr_key g) ps)
           = merge_all (Some f) (map_of (shards t ! nat s) (gr_key g)) (updates_for (gr_key g) qs)"
    by (rule merge_all_permuted[OF ac])
  then show ?thesis
    unfolding Worker_get_after_puts[OF t v ps g] Worker_get_after_puts[OF t v qs g] r by simp
qed

lemma mset_concat_permuted:
  "mset ps = mset qs \<Longrightarrow> mset (concat (map f ps)) = mset (concat (map f qs))"
proof -
  assume a: "mset ps = mset qs"
  have "mset (concat (map f xs)) = sum_mset (image_mset (\<lambda>x. mset (f x)) (mset xs))" for xs
    by (induction xs) simp_all
  then show ?thesis using a by simp
qed

lemma puts_permuted:
  assumes t: "tables w tid = Some (Some t)" and v: "valid_shard t s"
    and r: "reducer t = Some f" and ac: "assoc_commute f"
    and ps: "\<forall>p \<in> set ps. td_table p = tid \<and> td_shard p = s"
    and perm: "mset ps = mset qs"
    and g: "gr_table g = tid" "gr_shard g = s"
  shows "fst (Worker_get (put_all w ps) g resp) = fst (Worker_get (put_all w qs) g resp)"
proof -
  have "set qs = set ps" using perm by (metis mset_eq_setD)
  then have qs: "\<forall>p \<in> set qs. td_table p = tid \<and> td_shard p = s" using ps by simp
  show ?thesis
    using t v r ac ps qs mset_concat_permuted[OF perm] g by (rule puts_any_order)
qed

lemma puts_replace_last:
  assumes t: "tables w tid = Some (Some t)" and v: "valid_shard t s"
    and r: "reducer t = Some scalar_replace \<or> reducer t = None"
    and ps: "\<forall>p \<in> set ps. td_table p = tid \<and> td_shard p = s"
    and g: "gr_table g = tid" "gr_shard g = s"
    and some: "updates_for (gr_key g) ps \<noteq> []"
  shows "fst (Worker_get (put_all w ps) g resp)
       = Inr (resp\<lparr>td_source := worker_id w, td_table := tid, td_shard := - 1,
                   td_done := True, td_missing_key := False,
                   td_kv_data := td_kv_data resp
                     @ [(gr_key g, last (updates_for (gr_key g) ps))]\<rparr>)"
proof -
  have "merge_all (reducer t) (map_of (shards t ! nat s) (gr_key g)) (updates_for (gr_key g) ps)
        = Some (last (updates_for (gr_key g) ps))"
    using r merge_all_replace[OF some] merge_all_null_reducer[OF some] by auto
  then show ?thesis
    unfolding Worker_get_after_puts[OF t v ps g] by simp
qed

text \<open>
  C4, as the claim states it, fails for one built-in reducer: \<^verbatim>\<open>REDUCER_REPLACE\<close> writes
  its second argument, so it is not commutative, on scalars and on arrays, and two
  \<^verbatim>\<open>Put\<close> requests for one key leave the value of whichever comes last.
\<close>

theorem replace_reducer_order_matters:
  "scalar_replace 5 7 \<noteq> scalar_replace 7 5
   \<and> \<not> assoc_commute scalar_replace
   \<and> dense_replace [5] [7] 1 \<noteq> dense_replace [7] [5] 1
   \<and> fst (Worker_get
        (snd (Worker_put
          (snd (Worker_put (demo_worker 0 0 (Some scalar_replace) [])
             \<lparr>td_source = 0, td_table = 0, td_shard = 0, td_done = True,
              td_missing_key = False, td_kv_data = [(''k'', 5)]\<rparr>))
          \<lparr>td_source = 1, td_table = 0, td_shard = 0, td_done = True,
           td_missing_key = False, td_kv_data = [(''k'', 7)]\<rparr>))
        \<lparr>gr_table = 0, gr_shard = 0, gr_key = ''k''\<rparr>
        \<lparr>td_source = 0, td_table = 0, td_shard = 0, td_done = False,
         td_missing_key = False, td_kv_data = []\<rparr>)
      = Inr \<lparr>td_source = 0, td_table = 0, td_shard = - 1, td_done = True,
             td_missing_key = False, td_kv_data = [(''k'', 7)]\<rparr>
   \<and> fst (Worker_get
        (snd (Worker_put
          (snd (Worker_put (demo_worker 0 0 (Some scalar_replace) [])
             \<lparr>td_source = 1, td_table = 0, td_shard = 0, td_done = True,
              td_missing_key = False, td_kv_data = [(''k'', 7)]\<rparr>))
          \<lparr>td_source = 0, td_table = 0, td_shard = 0, td_done = True,
           td_missing_key = False, td_kv_data = [(''k'', 5)]\<rparr>))
        \<lparr>gr_table = 0, gr_shard = 0, gr_key = ''k''\<rparr>
        \<lparr>td_source = 0, td_table = 0, td_shard = 0, td_done = False,
         td_missing_key = False, td_kv_data = []\<rparr>)
      = Inr \<lparr>td_source = 0, td_table = 0, td_shard = - 1, td_done = True,
             td_missing_key = False, td_kv_data = [(''k'', 5)]\<rparr>"
proof -
  have a: "scalar_replace 5 7 \<noteq> scalar_replace 7 5" by (simp add: scalar_replace_def)
  have b: "\<not> assoc_commute scalar_replace"
  proof
    assume "assoc_commute scalar_replace"
    then have "scalar_replace 5 7 = scalar_replace 7 5"
      unfolding assoc_commute_def by blast
    with a show False by simp
  qed
  have c: "dense_replace [5] [7] 1 \<noteq> dense_replace [7] [5] 1"
    by (simp add: dense_replace_def BINARY_DENSE_LOOP.simps)
  show ?thesis
    apply (intro conjI a b c)
     apply (simp_all add: Worker_put_def Worker_get_def tables_at_def demo_worker_def
        demo_table_def Table_update_def Table_contains_def Table_get_def valid_shard_def
        apply_remote_def merge_value_def scalar_replace_def)
    done
qed

text \<open>
  C4, amended. The \<^verbatim>\<open>MAX\<close> reducer is associative and commutative over values, and so
  are the built-in \<^verbatim>\<open>MIN\<close>, \<^verbatim>\<open>ADD\<close>, \<^verbatim>\<open>MUL\<close> (both with 32-bit wrap-around), \<^verbatim>\<open>AND\<close>,
  \<^verbatim>\<open>OR\<close> and \<^verbatim>\<open>XOR\<close> reducers: each of the seven as a scalar reducer, and each as a dense
  reducer, elementwise on arrays of one length (the dense \<^verbatim>\<open>AND\<close> and \<^verbatim>\<open>OR\<close> being the
  logical operators, with results 0 and 1). Under any associative and commutative
  reducer the answer to a \<^verbatim>\<open>Get\<close> on a shard after a sequence of \<^verbatim>\<open>Put\<close> requests to that
  shard does not depend on the order in which the updates are applied: it is the same
  for every permutation of the requests, and for every other sequence of requests that
  carries the same updates, in whatever order and batches. The built-in \<^verbatim>\<open>REPLACE\<close>
  reducer, scalar and dense, writes its second argument: it is associative and not
  commutative, and under it (as under a null reducer) the value stored for a key is the
  one of the update applied last. With the \<^verbatim>\<open>MAX\<close> reducer, after one worker has written 5
  and another 7 to the same key of a shard owned by worker 0, \<^verbatim>\<open>Get\<close> returns 7 in both
  orders.
\<close>

theorem builtin_reducers_order_independent:
  "assoc_commute scalar_maximum \<and> assoc_commute scalar_minimum \<and> assoc_commute scalar_add
   \<and> assoc_commute scalar_multiply \<and> assoc_commute scalar_and \<and> assoc_commute scalar_or
   \<and> assoc_commute scalar_xor
   \<and> dense_assoc_commute dense_maximum \<and> dense_assoc_commute dense_minimum
   \<and> dense_assoc_commute dense_add \<and> dense_assoc_commute dense_multiply
   \<and> dense_assoc_commute dense_and \<and> dense_assoc_commute dense_or
   \<and> dense_assoc_commute dense_xor
   \<and> (\<forall>a b c. scalar_replace (scalar_replace a b) c = scalar_replace a (scalar_replace b c))
   \<and> (\<forall>n a b c. length a = n \<and> length b = n \<and> length c = n
         \<longrightarrow> Option.bind (dense_replace a b n) (\<lambda>m. dense_replace m c n)
             = Option.bind (dense_replace b c n) (\<lambda>m. dense_replace a m n))
   \<and> (\<forall>a b. scalar_replace a b = b)
   \<and> (\<forall>n a b. length a = n \<and> length b = n \<longrightarrow> dense_replace a b n = Some b)
   \<and> (\<forall>f w tid t s ps qs g resp.
         assoc_commute f \<and> tables w tid = Some (Some t) \<and> valid_shard t s
         \<and> reducer t = Some f
         \<and> (\<forall>p \<in> set ps. td_table p = tid \<and> td_shard p = s)
         \<and> (\<forall>p \<in> set qs. td_table p = tid \<and> td_shard p = s)
         \<and> mset (concat (map td_kv_data ps)) = mset (concat (map td_kv_data qs))
         \<and> gr_table g = tid \<and> gr_shard g = s
         \<longrightarrow> fst (Worker_get (put_all w ps) g resp) = fst (Worker_get (put_all w qs) g resp))
   \<and> (\<forall>f w tid t s ps qs g resp.
         assoc_commute f \<and> tables w tid = Some (Some t) \<and> valid_shard t s
         \<and> reducer t = Some f
         \<and> (\<forall>p \<in> set ps. td_table p = tid \<and> td_shard p = s)
         \<and> mset ps = mset qs
         \<and> gr_table g = tid \<and> gr_shard g = s
         \<longrightarrow> fst (Worker_get (put_all w ps) g resp) = fst (Worker_get (put_all w qs) g resp))
   \<and> (\<forall>f w tid t s p q g resp.
         assoc_commute f \<and> tables w tid = Some (Some t) \<and> valid_shard t s
         \<and> reducer t = Some f
         \<and> td_table p = tid \<and> td_shard p = s \<and> td_table q = tid \<and> td_shard q = s
         \<and> gr_table g = tid \<and> gr_shard g = s
         \<longrightarrow> fst (Worker_get (snd (Worker_put (snd (Worker_put w p)) q)) g resp)
             = fst (Worker_get (snd (Worker_put (snd (Worker_put w q)) p)) g resp))
   \<and> (\<forall>w tid t s ps g resp.
         tables w tid = Some (Some t) \<and> valid_shard t s
         \<and> (reducer t = Some scalar_replace \<or> reducer t = None)
         \<and> (\<forall>p \<in> set ps. td_table p = tid \<and> td_shard p = s)
         \<and> gr_table g = tid \<and> gr_shard g = s
         \<and> updates_for (gr_key g) ps \<noteq> []
         \<longrightarrow> fst (Worker_get (put_all w ps) g resp)
             = Inr (resp\<lparr>td_source := worker_id w, td_table := tid, td_shard := - 1,
                         td_done := True, td_missing_key := False,
                         td_kv_data := td_kv_data resp
                           @ [(gr_key g, last (updates_for (gr_key g) ps))]\<rparr>))
   \<and> (\<forall>k. fst (Worker_get
          (snd (Worker_put
            (snd (Worker_put (demo_worker 0 0 (Some scalar_maximum) [])
               \<lparr>td_source = 0, td_table = 0, td_shard = 0, td_done = True,
                td_missing_key = False, td_kv_data = [(k, 5)]\<rparr>))
            \<lparr>td_source = 1, td_table = 0, td_shard = 0, td_done = True,
                td_missing_key = False, td_kv_data = [(k, 7)]\<rparr>))
          \<lparr>gr_table = 0, gr_shard = 0, gr_key = k\<rparr>
          \<lparr>td_source = 0, td_table = 0, td_shard = 0, td_done = False,
           td_missing_key = False, td_kv_data = []\<rparr>)
        = Inr \<lparr>td_source = 0, td_table = 0, td_shard = - 1, td_done = True,
               td_missing_key = False, td_kv_data = [(k, 7)]\<rparr>
      \<and> fst (Worker_get
          (snd (Worker_put
            (snd (Worker_put (demo_worker 0 0 (Some scalar_maximum) [])
               \<lparr>td_source = 1, td_table = 0, td_shard = 0, td_done = True,
                td_missing_key = False, td_kv_data = [(k, 7)]\<rparr>))
            \<lparr>td_source = 0, td_table = 0, td_shard = 0, td_done = True,
                td_missing_key = False, td_kv_data = [(k, 5)]\<rparr>))
          \<lparr>gr_table = 0, gr_shard = 0, gr_key = k\<rparr>
          \<lparr>td_source = 0, td_table = 0, td_shard = 0, td_done = False,
           td_missing_key = False, td_kv_data = []\<rparr>)
        = Inr \<lparr>td_source = 0, td_table = 0, td_shard = - 1, td_done = True,
               td_missing_key = False, td_kv_data = [(k, 7)]\<rparr>)"
proof -
  have ra: "\<forall>a b c. scalar_replace (scalar_replace a b) c = scalar_replace a (scalar_replace b c)"
    by (simp add: scalar_replace_def)
  have dra: "\<forall>n a b c. length a = n \<and> length b = n \<and> length c = n
         \<longrightarrow> Option.bind (dense_replace a b n) (\<lambda>m. dense_replace m c n)
             = Option.bind (dense_replace b c n) (\<lambda>m. dense_replace a m n)"
    by (simp add: dense_replace_eq)
  have rs: "\<forall>a b. scalar_replace a b = b"
    by (simp add: scalar_replace_def)
  have drs: "\<forall>n a b. length a = n \<and> length b = n \<longrightarrow> dense_replace a b n = Some b"
    by (simp add: dense_replace_eq)
  have any: "\<forall>f w tid t s ps qs g resp.
         assoc_commute f \<and> tables w tid = Some (Some t) \<and> valid_shard t s
         \<and> reducer t = Some f
         \<and> (\<forall>p \<in> set ps. td_table p = tid \<and> td_shard p = s)
         \<and> (\<forall>p \<in> set qs. td_table p = tid \<and> td_shard p = s)
         \<and> mset (concat (map td_kv_data ps)) = mset (concat (map td_kv_data qs))
         \<and> gr_table g = tid \<and> gr_shard g = s
         \<longrightarrow> fst (Worker_get (put_all w ps) g resp) = fst (Worker_get (put_all w qs) g resp)"
  by (intro allI impI, elim conjE, rule puts_any_order; assumption)
  have perm: "\<forall>f w tid t s ps qs g resp.
         assoc_commute f \<and> tables w tid = Some (Some t) \<and> valid_shard t s
         \<and> reducer t = Some f
         \<and> (\<forall>p \<in> set ps. td_table p = tid \<and> td_shard p = s)
         \<and> mset ps = mset qs
         \<and> gr_table g = tid \<and> gr_shard g = s
         \<longrightarrow> fst (Worker_get (put_all w ps) g resp) = fst (Worker_get (put_all w qs) g resp)"
  by (intro allI impI, elim conjE, rule puts_permuted; assumption)
  have two: "\<forall>f w tid t s p q g resp.
         assoc_commute f \<and> tables w tid = Some (Some t) \<and> valid_shard t s
         \<and> reducer t = Some f
         \<and> td_table p = tid \<and> td_shard p = s \<and> td_table q = tid \<and> td_shard q = s
         \<and> gr_table g = tid \<and> gr_shard g = s
         \<longrightarrow> fst (Worker_get (snd (Worker_put (snd (Worker_put w p)) q)) g resp)
             = fst (Worker_get (snd (Worker_put (snd (Worker_put w q)) p)) g resp)"
    using puts_commute by blast
  have lst: "\<forall>w tid t s ps g resp.
         tables w tid = Some (Some t) \<and> valid_shard t s
         \<and> (reducer t = Some scalar_replace \<or> reducer t = None)
         \<and> (\<forall>p \<in> set ps. td_table p = tid \<and> td_shard p = s)
         \<and> gr_table g = tid \<and> gr_shard g = s
         \<and> updates_for (gr_key g) ps \<noteq> []
         \<longrightarrow> fst (Worker_get (put_all w ps) g resp)
             = Inr (resp\<lparr>td_source := worker_id w, td_table := tid, td_shard := - 1,
                         td_done := True, td_missing_key := False,
                         td_kv_data := td_kv_data resp
                           @ [(gr_key g, last (updates_for (gr_key g) ps))]\<rparr>)"
  by (intro allI impI, elim conjE, rule puts_replace_last; assumption)
  have s3: "\<forall>k. fst (Worker_get
          (snd (Worker_put
            (snd (Worker_put (demo_worker 0 0 (Some scalar_maximum) [])
               \<lparr>td_source = 0, td_table = 0, td_shard = 0, td_done = True,
                td_missing_key = False, td_kv_data = [(k, 5)]\<rparr>))
            \<lparr>td_source = 1, td_table = 0, td_shard = 0, td_done = True,
                td_missing_key = False, td_kv_data = [(k, 7)]\<rparr>))
          \<lparr>gr_table = 0, gr_shard = 0, gr_key = k\<rparr>
          \<lparr>td_source = 0, td_table = 0, td_shard = 0, td_done = False,
           td_missing_key = False, td_kv_data = []\<rparr>)
        = Inr \<lparr>td_source = 0, td_table = 0, td_shard = - 1, td_done = True,
               td_missing_key = False, td_kv_data = [(k, 7)]\<rparr>
      \<and> fst (Worker_get
          (snd (Worker_put
            (snd (Worker_put (demo_worker 0 0 (Some scalar_maximum) [])
               \<lparr>td_source = 1, td_table = 0, td_shard = 0, td_done = True,
                td_missing_key = False, td_kv_data = [(k, 7)]\<rparr>))
            \<lparr>td_source = 0, td_table = 0, td_shard = 0, td_done = True,
                td_missing_key = False, td_kv_data = [(k, 5)]\<rparr>))
          \<lparr>gr_table = 0, gr_shard = 0, gr_key = k\<rparr>
          \<lparr>td_source = 0, td_table = 0, td_shard = 0, td_done = False,
           td_missing_key = False, td_kv_data = []\<rparr>)
        = Inr \<lparr>td_source = 0, td_table = 0, td_shard = - 1, td_done = True,
               td_missing_key = False, td_kv_data = [(k, 7)]\<rparr>"
    by (simp add: Worker_put_def Worker_get_def tables_at_def demo_worker_def
        demo_table_def Table_update_def Table_contains_def Table_get_def valid_shard_def
        apply_remote_def merge_value_def scalar_maximum_def)
  from scalar_maximum_ac scalar_minimum_ac scalar_add_ac scalar_multiply_ac scalar_and_ac
    scalar_or_ac scalar_xor_ac dense_maximum_ac dense_minimum_ac dense_add_ac
    dense_multiply_ac dense_and_ac dense_or_ac dense_xor_ac ra dra rs drs any perm two lst s3
  show ?thesis by (intro conjI)
qed

theorem builtin_reducers_order_independent_witness:
  "assoc_commute scalar_maximum
   \<and> tables (demo_worker 0 0 (Some scalar_maximum) [(''x'', 6)]) 0 = Some (Some (demo_table 0 (Some scalar_maximum) [(''x'', 6)]))
   \<and> valid_shard (demo_table 0 (Some scalar_maximum) [(''x'', 6)]) 0
   \<and> reducer (demo_table 0 (Some scalar_maximum) [(''x'', 6)]) = Some scalar_maximum
   \<and> mset [\<lparr>td_source = 0, td_table = 0, td_shard = 0, td_done = True, td_missing_key = False, td_kv_data = [(''x'', 5 :: npy_int)]\<rparr>,
            \<lparr>td_source = 1, td_table = 0, td_shard = 0, td_done = True, td_missing_key = False, td_kv_data = [(''x'', 7 :: npy_int), (''x'', 2)]\<rparr>]
       = mset [\<lparr>td_source = 1, td_table = 0, td_shard = 0, td_done = True, td_missing_key = False, td_kv_data = [(''x'', 7 :: npy_int), (''x'', 2)]\<rparr>,
               \<lparr>td_source = 0, td_table = 0, td_shard = 0, td_done = True, td_missing_key = False, td_kv_data = [(''x'', 5 :: npy_int)]\<rparr>]
   \<and> fst (Worker_get (put_all (demo_worker 0 0 (Some scalar_maximum) [(''x'', 6)])
          [\<lparr>td_source = 0, td_table = 0, td_shard = 0, td_done = True, td_missing_key = False, td_kv_data = [(''x'', 5 :: npy_int)]\<rparr>,
           \<lparr>td_source = 1, td_table = 0, td_shard = 0, td_done = True, td_missing_key = False, td_kv_data = [(''x'', 7 :: npy_int), (''x'', 2)]\<rparr>])
        \<lparr>gr_table = 0, gr_shard = 0, gr_key = ''x''\<rparr>
        \<lparr>td_source = 0, td_table = 0, td_shard = 0, td_done = False, td_missing_key = False, td_kv_data = []\<rparr>)
     = fst (Worker_get (put_all (demo_worker 0 0 (Some scalar_maximum) [(''x'', 6)])
          [\<lparr>td_source = 1, td_table = 0, td_shard = 0, td_done = True, td_missing_key = False, td_kv_data = [(''x'', 7 :: npy_int), (''x'', 2)]\<rparr>,
           \<lparr>td_source = 0, td_table = 0, td_shard = 0, td_done = True, td_missing_key = False, td_kv_data = [(''x'', 5 :: npy_int)]\<rparr>])
        \<lparr>gr_table = 0, gr_shard = 0, gr_key = ''x''\<rparr>
        \<lparr>td_source = 0, td_table = 0, td_shard = 0, td_done = False, td_missing_key = False, td_kv_data = []\<rparr>)
   \<and> fst (Worker_get (put_all (demo_worker 0 0 (Some scalar_maximum) [(''x'', 6)])
          [\<lparr>td_source = 0, td_table = 0, td_shard = 0, td_done = True, td_missing_key = False, td_kv_data = [(''x'', 5 :: npy_int)]\<rparr>,
           \<lparr>td_source = 1, td_table = 0, td_shard = 0, td_done = True, td_missing_key = False, td_kv_data = [(''x'', 7 :: npy_int), (''x'', 2)]\<rparr>])
        \<lparr>gr_table = 0, gr_shard = 0, gr_key = ''x''\<rparr>
        \<lparr>td_source = 0, td_table = 0, td_shard = 0, td_done = False, td_missing_key = False, td_kv_data = []\<rparr>)
     = fst (Worker_get (put_all (demo_worker 0 0 (Some scalar_maximum) [(''x'', 6)])
          [\<lparr>td_source = 0, td_table = 0, td_shard = 0, td_done = True, td_missing_key = False, td_kv_data = [(''x'', 5 :: npy_int), (''x'', 7), (''x'', 2)]\<rparr>])
        \<lparr>gr_table = 0, gr_shard = 0, gr_key = ''x''\<rparr>
        \<lparr>td_source = 0, td_table = 0, td_shard = 0, td_done = False, td_missing_key = False, td_kv_data = []\<rparr>)
   \<and> fst (Worker_get
        (snd (Worker_put (snd (Worker_put (demo_worker 0 0 (Some scalar_maximum) [(''x'', 6)])
           \<lparr>td_source = 0, td_table = 0, td_shard = 0, td_done = True, td_missing_key = False, td_kv_data = [(''x'', 5 :: npy_int)]\<rparr>))
           \<lparr>td_source = 1, td_table = 0, td_shard = 0, td_done = True, td_missing_key = False, td_kv_data = [(''x'', 7 :: npy_int), (''x'', 2)]\<rparr>))
        \<lparr>gr_table = 0, gr_shard = 0, gr_key = ''x''\<rparr>
        \<lparr>td_source = 0, td_table = 0, td_shard = 0, td_done = False, td_missing_key = False, td_kv_data = []\<rparr>)
     = fst (Worker_get
        (snd (Worker_put (snd (Worker_put (demo_worker 0 0 (Some scalar_maximum) [(''x'', 6)])
           \<lparr>td_source = 1, td_table = 0, td_shard = 0, td_done = True, td_missing_key = False, td_kv_data = [(''x'', 7 :: npy_int), (''x'', 2)]\<rparr>))
           \<lparr>td_source = 0, td_table = 0, td_shard = 0, td_done = True, td_missing_key = False, td_kv_data = [(''x'', 5 :: npy_int)]\<rparr>))
        \<lparr>gr_table = 0, gr_shard = 0, gr_key = ''x''\<rparr>
        \<lparr>td_source = 0, td_table = 0, td_shard = 0, td_done = False, td_missing_key = False, td_kv_data = []\<rparr>)
   \<and> fst (Worker_get (put_all (demo_worker 0 0 (Some scalar_replace) [(''x'', 6)])
          [\<lparr>td_source = 1, td_table = 0, td_shard = 0, td_done = True, td_missing_key = False, td_kv_data = [(''x'', 7 :: npy_int), (''x'', 2)]\<rparr>,
           \<lparr>td_source = 0, td_table = 0, td_shard = 0, td_done = True, td_missing_key = False, td_kv_data = [(''x'', 5 :: npy_int)]\<rparr>])
        \<lparr>gr_table = 0, gr_shard = 0, gr_key = ''x''\<rparr>
        \<lparr>td_source = 0, td_table = 0, td_shard = 0, td_done = False, td_missing_key = False, td_kv_data = []\<rparr>)
     = Inr \<lparr>td_source = 0, td_table = 0, td_shard = - 1, td_done = True, td_missing_key = False, td_kv_data = [(''x'', 5 :: npy_int)]\<rparr>
   \<and> fst (Worker_get (put_all (demo_worker 0 0 (Some scalar_replace) [(''x'', 6)])
          [\<lparr>td_source = 0, td_table = 0, td_shard = 0, td_done = True, td_missing_key = False, td_kv_data = [(''x'', 5 :: npy_int)]\<rparr>,
           \<lparr>td_source = 1, td_table = 0, td_shard = 0, td_done = True, td_missing_key = False, td_kv_data = [(''x'', 7 :: npy_int), (''x'', 2)]\<rparr>])
        \<lparr>gr_table = 0, gr_shard = 0, gr_key = ''x''\<rparr>
        \<lparr>td_source = 0, td_table = 0, td_shard = 0, td_done = False, td_missing_key = False, td_kv_data = []\<rparr>)
     = Inr \<lparr>td_source = 0, td_table = 0, td_shard = - 1, td_done = True, td_missing_key = False, td_kv_data = [(''x'', 2)]\<rparr>
   \<and> length [6, 0 :: npy_int] = 2 \<and> length [3, 5 :: npy_int] = 2 \<and> length [1, 1 :: npy_int] = 2
   \<and> dense_and [6, 0] [3, 5] 2 = Some [1, 0]
   \<and> dense_and [6, 0] [3, 5] 2 = dense_and [3, 5] [6, 0] 2
   \<and> dense_maximum [1, 9] [4, 3] 2 = dense_maximum [4, 3] [1, 9] 2
   \<and> dense_replace [6, 0] [3, 5] 2 = Some [3, 5]"
proof -
  note drs = builtin_reducers_order_independent[THEN conjunct2, THEN conjunct2, THEN conjunct2, THEN conjunct2, THEN conjunct2, THEN conjunct2, THEN conjunct2, THEN conjunct2, THEN conjunct2, THEN conjunct2, THEN conjunct2, THEN conjunct2, THEN conjunct2, THEN conjunct2, THEN conjunct2, THEN conjunct2, THEN conjunct2, THEN conjunct1]
  note ac = builtin_reducers_order_independent[THEN conjunct1]
  note dmax = builtin_reducers_order_independent[THEN conjunct2, THEN conjunct2, THEN conjunct2, THEN conjunct2, THEN conjunct2, THEN conjunct2, THEN conjunct2, THEN conjunct1]
  note dand = builtin_reducers_order_independent[THEN conjunct2, THEN conjunct2, THEN conjunct2, THEN conjunct2, THEN conjunct2, THEN conjunct2, THEN conjunct2, THEN conjunct2, THEN conjunct2, THEN conjunct2, THEN conjunct2, THEN conjunct1]
  note any = builtin_reducers_order_independent[THEN conjunct2, THEN conjunct2, THEN conjunct2, THEN conjunct2, THEN conjunct2, THEN conjunct2, THEN conjunct2, THEN conjunct2, THEN conjunct2, THEN conjunct2, THEN conjunct2, THEN conjunct2, THEN conjunct2, THEN conjunct2, THEN conjunct2, THEN conjunct2, THEN conjunct2, THEN conjunct2, THEN conjunct1]
  note perm = builtin_reducers_order_independent[THEN conjunct2, THEN conjunct2, THEN conjunct2, THEN conjunct2, THEN conjunct2, THEN conjunct2, THEN conjunct2, THEN conjunct2, THEN conjunct2, THEN conjunct2, THEN conjunct2, THEN conjunct2, THEN conjunct2, THEN conjunct2, THEN conjunct2, THEN conjunct2, THEN conjunct2, THEN conjunct2, THEN conjunct2, THEN conjunct1]
  note two = builtin_reducers_order_independent[THEN conjunct2, THEN conjunct2, THEN conjunct2, THEN conjunct2, THEN conjunct2, THEN conjunct2, THEN conjunct2, THEN conjunct2, THEN conjunct2, THEN conjunct2, THEN conjunct2, THEN conjunct2, THEN conjunct2, THEN conjunct2, THEN conjunct2, THEN conjunct2, THEN conjunct2, THEN conjunct2, THEN conjunct2, THEN conjunct2, THEN conjunct1]
  note lst = builtin_reducers_order_independent[THEN conjunct2, THEN conjunct2, THEN conjunct2, THEN conjunct2, THEN conjunct2, THEN conjunct2, THEN conjunct2, THEN conjunct2, THEN conjunct2, THEN conjunct2, THEN conjunct2, THEN conjunct2, THEN conjunct2, THEN conjunct2, THEN conjunct2, THEN conjunct2, THEN conjunct2, THEN conjunct2, THEN conjunct2, THEN conjunct2, THEN conjunct2, THEN conjunct1]
  let ?w = "demo_worker 0 0 (Some scalar_maximum) [(''x'', 6)]"
  let ?t = "demo_table 0 (Some scalar_maximum) [(''x'', 6)]"
  let ?wr = "demo_worker 0 0 (Some scalar_replace) [(''x'', 6)]"
  let ?tr = "demo_table 0 (Some scalar_replace) [(''x'', 6)]"
  let ?p5 = "\<lparr>td_source = 0, td_table = 0, td_shard = 0, td_done = True, td_missing_key = False, td_kv_data = [(''x'', 5)]\<rparr> :: (string, npy_int) TableData"
  let ?p72 = "\<lparr>td_source = 1, td_table = 0, td_shard = 0, td_done = True, td_missing_key = False, td_kv_data = [(''x'', 7), (''x'', 2)]\<rparr> :: (string, npy_int) TableData"
  let ?p572 = "\<lparr>td_source = 0, td_table = 0, td_shard = 0, td_done = True, td_missing_key = False, td_kv_data = [(''x'', 5), (''x'', 7), (''x'', 2)]\<rparr> :: (string, npy_int) TableData"
  let ?g = "\<lparr>gr_table = 0, gr_shard = 0, gr_key = ''x''\<rparr>"
  let ?r = "\<lparr>td_source = 0, td_table = 0, td_shard = 0, td_done = False, td_missing_key = False, td_kv_data = []\<rparr> :: (string, npy_int) TableData"
  have t: "tables ?w 0 = Some (Some ?t)" and tr: "tables ?wr 0 = Some (Some ?tr)"
    by (simp_all add: demo_worker_def)
  have v: "valid_shard ?t 0" and vr: "valid_shard ?tr 0"
    by (simp_all add: demo_table_def valid_shard_def)
  have r: "reducer ?t = Some scalar_maximum"
    and rr: "reducer ?tr = Some scalar_replace \<or> reducer ?tr = None"
    by (simp_all add: demo_table_def)
  have a1: "\<forall>p \<in> set [?p5, ?p72]. td_table p = 0 \<and> td_shard p = 0"
    and a2: "\<forall>p \<in> set [?p72, ?p5]. td_table p = 0 \<and> td_shard p = 0"
    and a3: "\<forall>p \<in> set [?p572]. td_table p = 0 \<and> td_shard p = 0"
    by simp_all
  have m: "mset [?p5, ?p72] = mset [?p72, ?p5]" by simp
  have mc: "mset (concat (map td_kv_data [?p5, ?p72])) = mset (concat (map td_kv_data [?p572]))"
    by simp
  have g: "gr_table ?g = 0" "gr_shard ?g = 0" by simp_all
  have e1: "fst (Worker_get (put_all ?w [?p5, ?p72]) ?g ?r)
          = fst (Worker_get (put_all ?w [?p72, ?p5]) ?g ?r)"
    using perm[rule_format, of scalar_maximum ?w 0 ?t 0 "[?p5, ?p72]" "[?p72, ?p5]" ?g ?r]
      ac t v r a1 m g by blast
  have e2: "fst (Worker_get (put_all ?w [?p5, ?p72]) ?g ?r)
          = fst (Worker_get (put_all ?w [?p572]) ?g ?r)"
    using any[rule_format, of scalar_maximum ?w 0 ?t 0 "[?p5, ?p72]" "[?p572]" ?g ?r]
      ac t v r a1 a3 mc g by blast
  have e3: "fst (Worker_get (snd (Worker_put (snd (Worker_put ?w ?p5)) ?p72)) ?g ?r)
          = fst (Worker_get (snd (Worker_put (snd (Worker_put ?w ?p72)) ?p5)) ?g ?r)"
    using two[rule_format, of scalar_maximum ?w 0 ?t 0 ?p5 ?p72 ?g ?r] ac t v r g by simp
  have u1: "updates_for (gr_key ?g) [?p72, ?p5] = [7, 2, 5]"
    and u2: "updates_for (gr_key ?g) [?p5, ?p72] = [5, 7, 2]"
    by (simp_all add: updates_for_def)
  have l1: "fst (Worker_get (put_all ?wr [?p72, ?p5]) ?g ?r) = Inr \<lparr>td_source = 0, td_table = 0, td_shard = - 1, td_done = True, td_missing_key = False, td_kv_data = [(''x'', 5)]\<rparr>"
    using lst[rule_format, of ?wr 0 ?tr 0 "[?p72, ?p5]" ?g ?r] tr vr rr a2 g u1
    by (simp add: demo_worker_def)
  have l2: "fst (Worker_get (put_all ?wr [?p5, ?p72]) ?g ?r) = Inr \<lparr>td_source = 0, td_table = 0, td_shard = - 1, td_done = True, td_missing_key = False, td_kv_data = [(''x'', 2)]\<rparr>"
    using lst[rule_format, of ?wr 0 ?tr 0 "[?p5, ?p72]" ?g ?r] tr vr rr a1 g u2
    by (simp add: demo_worker_def)
  have ln: "length [6, 0 :: npy_int] = 2 \<and> length [3, 5 :: npy_int] = 2 \<and> length [1, 1 :: npy_int] = 2"
    by simp
  have d0: "dense_and [6, 0] [3, 5] 2 = Some [1, 0]"
    by (simp add: dense_and_def BINARY_DENSE_LOOP.simps)
  have d1: "dense_and [6, 0] [3, 5] 2 = dense_and [3, 5] [6, 0] 2"
    using dand[unfolded dense_assoc_commute_def, rule_format, of "[6, 0]" 2 "[3, 5]" "[1, 1]"] ln
    by blast
  have d2: "dense_maximum [1, 9] [4, 3] 2 = dense_maximum [4, 3] [1, 9] 2"
    using dmax[unfolded dense_assoc_commute_def, rule_format, of "[1, 9]" 2 "[4, 3]" "[1, 1]"]
    by simp
  have ln1: "length [6, 0 :: npy_int] = 2" and ln2: "length [3, 5 :: npy_int] = 2"
    and ln3: "length [1, 1 :: npy_int] = 2" by simp_all
  have d3: "dense_replace [6, 0 :: npy_int] [3, 5] 2 = Some [3, 5]"
    using drs[rule_format, of "[6, 0]" 2 "[3, 5]"] by simp
  from ac t v r m e1 e2 e3 l1 l2 ln1 ln2 ln3 d0 d1 d2 d3 show ?thesis by (intro conjI)
qed

section \<open>Remote iteration\<close>

lemma Worker_get_iterator_reply:
  assumes cur: "served_cursor w req = Some (ident, it)"
  shows "\<exists>resp' w'. Worker_get_iterator w req IteratorResp_new = (Inr resp', w')
           \<and> ir_results resp' = take (unat (iq_count req)) (it_rest it)
           \<and> ir_done resp' = (length (it_rest it) \<le> unat (iq_count req))
           \<and> ir_id resp' = ident
           \<and> iterators w' ident
               = Some (Some (it\<lparr>it_rest := drop (unat (iq_count req)) (it_rest it)\<rparr>))"
proof -
  from Worker_get_iterator_served[OF cur, of IteratorResp_new] obtain w1 where
    e: "Worker_get_iterator w req IteratorResp_new
          = get_iterator_fill w1 ident it (iq_count req) (IteratorResp_new\<lparr>ir_id := ident\<rparr>)"
    by blast
  from get_iterator_fill_eq[of w1 ident it "iq_count req" "IteratorResp_new\<lparr>ir_id := ident\<rparr>"]
  obtain resp' where
    f: "get_iterator_fill w1 ident it (iq_count req) (IteratorResp_new\<lparr>ir_id := ident\<rparr>)
        = (Inr resp', w1\<lparr>iterators := (iterators w1)(ident \<mapsto> Some (it\<lparr>it_rest := drop (unat (iq_count req)) (it_rest it)\<rparr>))\<rparr>)"
    and r: "ir_results resp' = take (unat (iq_count req)) (it_rest it)"
    and d: "ir_done resp' = (length (it_rest it) \<le> unat (iq_count req))"
    and i: "ir_id resp' = ident"
    by (auto simp: IteratorResp_new_def)
  show ?thesis using e f r d i by simp
qed

lemma observed_inside:
  assumes "Suc (ri_index ri) < length (ir_results (ri_response ri))"
  shows "RemoteIterator_observed (Suc n) peer ri seen
         = RemoteIterator_observed n peer (ri\<lparr>ri_index := Suc (ri_index ri)\<rparr>)
             (seen @ [ir_results (ri_response ri) ! ri_index ri])"
  using assms
  by (simp add: RemoteIterator_done_def RemoteIterator_key_str_def RemoteIterator_value_str_def
      RemoteIterator_next_def)

lemma observed_run:
  "ri_index ri + k < length (ir_results (ri_response ri)) \<Longrightarrow>
   RemoteIterator_observed (k + n) peer ri seen
     = RemoteIterator_observed n peer (ri\<lparr>ri_index := ri_index ri + k\<rparr>)
         (seen @ take k (drop (ri_index ri) (ir_results (ri_response ri))))"
proof (induction k arbitrary: ri seen)
  case 0
  then show ?case by simp
next
  case (Suc k)
  let ?rs = "ir_results (ri_response ri)"
  let ?ri = "ri\<lparr>ri_index := Suc (ri_index ri)\<rparr>"
  have i: "Suc (ri_index ri) < length ?rs" using Suc.prems by simp
  have "RemoteIterator_observed (Suc k + n) peer ri seen
        = RemoteIterator_observed (k + n) peer ?ri (seen @ [?rs ! ri_index ri])"
    using observed_inside[OF i, of "k + n" peer seen] by simp
  also have "\<dots> = RemoteIterator_observed n peer (?ri\<lparr>ri_index := ri_index ?ri + k\<rparr>)
         ((seen @ [?rs ! ri_index ri]) @ take k (drop (ri_index ?ri) (ir_results (ri_response ?ri))))"
    using Suc.prems by (intro Suc.IH) simp
  also have "(seen @ [?rs ! ri_index ri]) @ take k (drop (ri_index ?ri) (ir_results (ri_response ?ri)))
           = seen @ take (Suc k) (drop (ri_index ri) ?rs)"
    using i by (simp add: Cons_nth_drop_Suc[symmetric])
  finally show ?case by simp
qed

lemma observed_last_done:
  assumes "Suc (ri_index ri) = length (ir_results (ri_response ri))"
    and "ir_done (ri_response ri)"
  shows "RemoteIterator_observed (Suc (Suc n)) peer ri seen
         = Some (seen @ [ir_results (ri_response ri) ! ri_index ri], None)"
proof -
  have n: "RemoteIterator_next peer ri = (Inr (ri\<lparr>ri_index := Suc (ri_index ri)\<rparr>), peer)"
    using assms by (simp add: RemoteIterator_next_def)
  have d: "\<not> RemoteIterator_done ri" using assms(1) by (auto simp: RemoteIterator_done_def)
  have k: "RemoteIterator_key_str ri = Inr (fst (ir_results (ri_response ri) ! ri_index ri))"
    and v: "RemoteIterator_value_str ri = Inr (snd (ir_results (ri_response ri) ! ri_index ri))"
    using assms(1) by (simp_all add: RemoteIterator_key_str_def RemoteIterator_value_str_def)
  have d2: "RemoteIterator_done (ri\<lparr>ri_index := Suc (ri_index ri)\<rparr>)"
    using assms by (simp add: RemoteIterator_done_def)
  show ?thesis
    using d k v n d2 by simp
qed

lemma observed_last_refill:
  assumes "Suc (ri_index ri) = length (ir_results (ri_response ri))"
    and "\<not> ir_done (ri_response ri)"
    and "Worker_get_iterator peer (ri_request ri) IteratorResp_new = (Inr resp', peer')"
  shows "RemoteIterator_observed (Suc n) peer ri seen
         = RemoteIterator_observed n peer'
             (ri\<lparr>ri_index := Suc (ri_index ri), ri_response := resp'\<rparr>)
             (seen @ [ir_results (ri_response ri) ! ri_index ri])"
proof -
  have n: "RemoteIterator_next peer ri
           = (Inr (ri\<lparr>ri_index := Suc (ri_index ri), ri_response := resp'\<rparr>), peer')"
    using assms by (simp add: RemoteIterator_next_def WorkerProxy_get_iterator_def)
  have d: "\<not> RemoteIterator_done ri" using assms(2) by (simp add: RemoteIterator_done_def)
  have k: "RemoteIterator_key_str ri = Inr (fst (ir_results (ri_response ri) ! ri_index ri))"
    and v: "RemoteIterator_value_str ri = Inr (snd (ir_results (ri_response ri) ! ri_index ri))"
    using assms(1) by (simp_all add: RemoteIterator_key_str_def RemoteIterator_value_str_def)
  show ?thesis
    using d k v n by simp
qed

lemma observed_beyond:
  assumes "length (ir_results (ri_response ri)) \<le> ri_index ri"
  shows "RemoteIterator_observed (Suc n) peer ri seen
         = Some (seen, if ir_done (ri_response ri)
                          \<and> ri_index ri = length (ir_results (ri_response ri))
                       then None else Some OutOfRange)"
  using assms
  by (simp add: RemoteIterator_done_def RemoteIterator_key_str_def)

lemma LocalIterator_observed_eq: "LocalIterator_observed it seen = seen @ it_rest it"
proof (induction "it_rest it" arbitrary: it seen)
  case Nil
  then show ?case
    by (subst LocalIterator_observed.simps) (simp add: TableIterator_done_def)
next
  case (Cons e es)
  have "LocalIterator_observed it seen
        = LocalIterator_observed (TableIterator_next it) (seen @ [e])"
    using Cons.hyps(2)[symmetric]
    by (subst LocalIterator_observed.simps)
       (simp add: TableIterator_done_def TableIterator_key_def TableIterator_value_def)
  also have "\<dots> = (seen @ [e]) @ it_rest (TableIterator_next it)"
    using Cons.hyps(2)[symmetric] by (intro Cons.hyps(1)) (simp add: TableIterator_next_def)
  finally show ?case using Cons.hyps(2)[symmetric] by (simp add: TableIterator_next_def)
qed

lemma local_iteration_eq:
  "valid_shard t s \<Longrightarrow> local_iteration t s = Inr (shards t ! nat s)"
  by (simp add: local_iteration_def Table_get_iterator_def LocalIterator_observed_eq)


lemma RemoteIterator_new_eq:
  assumes t: "tables peer tid = Some (Some t)" and v: "valid_shard t shard"
  shows "\<exists>resp peer1.
           RemoteIterator_new peer tid shard f
             = (Inr \<lparr>ri_shard = shard, ri_done = False, ri_fetch_num = f,
                     ri_request = \<lparr>iq_table = tid, iq_shard = shard,
                                   iq_id = current_iterator_id peer, iq_count = f\<rparr>,
                     ri_response = resp, ri_index = 0\<rparr>, peer1)
           \<and> ir_results resp = take (unat f) (shards t ! nat shard)
           \<and> ir_done resp = (length (shards t ! nat shard) \<le> unat f)
           \<and> iterators peer1 (current_iterator_id peer)
               = Some (Some \<lparr>it_table = table_id t, it_shard = shard,
                              it_rest = drop (unat f) (shards t ! nat shard)\<rparr>)"
proof -
  let ?req = "\<lparr>iq_table = tid, iq_shard = shard, iq_id = - 1, iq_count = f\<rparr>"
  let ?it = "\<lparr>it_table = table_id t, it_shard = shard, it_rest = shards t ! nat shard\<rparr>"
  have c: "served_cursor peer ?req = Some (current_iterator_id peer, ?it)"
    using t v by (simp add: served_cursor_def Table_get_iterator_def)
  from Worker_get_iterator_reply[OF c] obtain resp peer1 where
    g: "Worker_get_iterator peer ?req IteratorResp_new = (Inr resp, peer1)"
    and r: "ir_results resp = take (unat f) (shards t ! nat shard)"
    and d: "ir_done resp = (length (shards t ! nat shard) \<le> unat f)"
    and i: "ir_id resp = current_iterator_id peer"
    and m: "iterators peer1 (current_iterator_id peer)
             = Some (Some \<lparr>it_table = table_id t, it_shard = shard,
                            it_rest = drop (unat f) (shards t ! nat shard)\<rparr>)"
    by auto
  have "RemoteIterator_new peer tid shard f
             = (Inr \<lparr>ri_shard = shard, ri_done = False, ri_fetch_num = f,
                     ri_request = \<lparr>iq_table = tid, iq_shard = shard,
                                   iq_id = current_iterator_id peer, iq_count = f\<rparr>,
                     ri_response = resp, ri_index = 0\<rparr>, peer1)"
    using g i by (simp add: RemoteIterator_new_def WorkerProxy_get_iterator_def)
  with r d m show ?thesis by blast
qed

lemma RemoteIterator_single_batch:
  assumes t: "tables peer tid = Some (Some t)" and v: "valid_shard t shard"
    and fit: "length (shards t ! nat shard) \<le> unat f"
    and fuel: "length (shards t ! nat shard) < n"
  shows "remote_iteration n peer tid shard f = Some (shards t ! nat shard, None)"
proof -
  let ?es = "shards t ! nat shard"
  from RemoteIterator_new_eq[OF t v, of f] obtain resp peer1 ri where
    new: "RemoteIterator_new peer tid shard f = (Inr ri, peer1)"
    and ri: "ri_response ri = resp" "ri_index ri = 0"
    and r: "ir_results resp = take (unat f) ?es"
    and d: "ir_done resp = (length ?es \<le> unat f)"
    by fastforce
  have rs: "ir_results (ri_response ri) = ?es" using ri r fit by simp
  have dn: "ir_done (ri_response ri)" using ri d fit by simp
  have o: "remote_iteration n peer tid shard f = RemoteIterator_observed n peer1 ri []"
    using new by (simp add: remote_iteration_def)
  show ?thesis
  proof (cases "?es = []")
    case True
    obtain m where n: "n = Suc m" using fuel by (cases n) simp_all
    have "RemoteIterator_observed (Suc m) peer1 ri [] = Some ([], None)"
      using observed_beyond[of ri m peer1 "[]"] rs dn ri True by simp
    then show ?thesis using o n True by simp
  next
    case False
    then obtain k where k: "length ?es = Suc k" by (cases ?es) simp_all
    obtain m where n: "n = k + Suc (Suc m)"
      using fuel k by (metis Suc_lessE add_Suc_right less_imp_add_positive add_Suc_shift less_iff_Suc_add)
    let ?ri = "ri\<lparr>ri_index := ri_index ri + k\<rparr>"
    have "RemoteIterator_observed (k + Suc (Suc m)) peer1 ri []
          = RemoteIterator_observed (Suc (Suc m)) peer1 ?ri
              ([] @ take k (drop (ri_index ri) (ir_results (ri_response ri))))"
      using rs ri k by (intro observed_run) simp
    also have "\<dots> = Some (([] @ take k (drop (ri_index ri) (ir_results (ri_response ri))))
                          @ [ir_results (ri_response ?ri) ! ri_index ?ri], None)"
      using rs ri k dn by (intro observed_last_done) simp_all
    also have "([] @ take k (drop (ri_index ri) (ir_results (ri_response ri))))
                          @ [ir_results (ri_response ?ri) ! ri_index ?ri] = ?es"
      using rs ri k by (simp add: take_Suc_conv_app_nth[symmetric])
    finally show ?thesis using o n by simp
  qed
qed

lemma length_S4_entries: "length S4_entries = 1000"
  by (simp add: S4_entries_def)

text \<open>
  C1 says that a remote iterator, constructed with a positive fetch count and read until
  it is done, shows the entries of the shard as a local iterator does, all of them and in
  the same order. The code does so when the shard fits into the first batch
  (\<open>RemoteIterator_single_batch\<close>). It does not for a longer shard:
  \<^verbatim>\<open>RemoteIterator::next\<close> asks for the next batch when \<^verbatim>\<open>index_\<close> has reached the size of
  the buffer, and leaves \<^verbatim>\<open>index_\<close> where it is, beyond or at the end of the batch that
  arrives. For every shard with more entries than the fetch count, the remote iterator
  shows the first batch and nothing else: it then reads \<^verbatim>\<open>response_.results[index_]\<close>
  beyond the end of the vector, or, when the shard holds exactly two batches, reports
  \<open>done\<close> with the second batch unread. The local iterator shows the whole shard.
\<close>

theorem RemoteIterator_stops_after_first_batch:
  assumes t: "tables peer tid = Some (Some t)" and v: "valid_shard t shard"
    and idn: "current_iterator_id peer \<noteq> - 1"
    and pos: "0 < unat f"
    and big: "unat f < length (shards t ! nat shard)"
    and fuel: "unat f < n"
  shows "remote_iteration n peer tid shard f
           = Some (take (unat f) (shards t ! nat shard),
                   if length (shards t ! nat shard) = 2 * unat f then None
                   else Some OutOfRange)
         \<and> local_iteration t shard = Inr (shards t ! nat shard)
         \<and> take (unat f) (shards t ! nat shard) \<noteq> shards t ! nat shard"
proof -
  let ?es = "shards t ! nat shard"
  let ?F = "unat f"
  let ?id = "current_iterator_id peer"
  let ?req = "\<lparr>iq_table = tid, iq_shard = shard, iq_id = ?id, iq_count = f\<rparr>"
  let ?it = "\<lparr>it_table = table_id t, it_shard = shard, it_rest = drop ?F ?es\<rparr>"
  from RemoteIterator_new_eq[OF t v, of f] obtain resp peer1 ri where
    new: "RemoteIterator_new peer tid shard f = (Inr ri, peer1)"
    and ri: "ri_response ri = resp" "ri_index ri = 0" "ri_request ri = ?req"
    and r: "ir_results resp = take ?F ?es"
    and d: "ir_done resp = (length ?es \<le> ?F)"
    and m: "iterators peer1 ?id = Some (Some ?it)"
    by fastforce
  have rs: "ir_results (ri_response ri) = take ?F ?es" using ri r by simp
  have len: "length (ir_results (ri_response ri)) = ?F" using rs big by simp
  have nd: "\<not> ir_done (ri_response ri)" using ri d big by simp
  have o: "remote_iteration n peer tid shard f = RemoteIterator_observed n peer1 ri []"
    using new by (simp add: remote_iteration_def)
  obtain k where k: "?F = Suc k" using pos by (cases ?F) simp_all
  obtain j where n: "n = k + Suc (Suc j)"
    using fuel k by (metis Suc_lessE add_Suc_right less_imp_add_positive add_Suc_shift less_iff_Suc_add)
  let ?ri1 = "ri\<lparr>ri_index := ri_index ri + k\<rparr>"
  let ?seen1 = "[] @ take k (drop (ri_index ri) (ir_results (ri_response ri)))"
  have s1: "RemoteIterator_observed (k + Suc (Suc j)) peer1 ri []
          = RemoteIterator_observed (Suc (Suc j)) peer1 ?ri1 ?seen1"
    using len ri k by (intro observed_run) simp
  have c: "served_cursor peer1 (ri_request ?ri1) = Some (?id, ?it)"
    using ri idn m by (simp add: served_cursor_def)
  from Worker_get_iterator_reply[OF c] obtain resp2 peer2 where
    g: "Worker_get_iterator peer1 (ri_request ?ri1) IteratorResp_new = (Inr resp2, peer2)"
    and r2: "ir_results resp2 = take ?F (drop ?F ?es)"
    and d2: "ir_done resp2 = (length (drop ?F ?es) \<le> ?F)"
    using ri by auto
  let ?ri2 = "?ri1\<lparr>ri_index := Suc (ri_index ?ri1), ri_response := resp2\<rparr>"
  let ?seen2 = "?seen1 @ [ir_results (ri_response ?ri1) ! ri_index ?ri1]"
  have s2: "RemoteIterator_observed (Suc (Suc j)) peer1 ?ri1 ?seen1
          = RemoteIterator_observed (Suc j) peer2 ?ri2 ?seen2"
    using len ri k nd g by (intro observed_last_refill) simp_all
  have b: "length (ir_results (ri_response ?ri2)) \<le> ri_index ?ri2"
    using r2 ri k by simp
  have s3: "RemoteIterator_observed (Suc j) peer2 ?ri2 ?seen2
          = Some (?seen2, if ir_done (ri_response ?ri2)
                            \<and> ri_index ?ri2 = length (ir_results (ri_response ?ri2))
                          then None else Some OutOfRange)"
    by (rule observed_beyond[OF b])
  have seen: "?seen2 = take ?F ?es"
    using rs ri k big by (simp add: take_Suc_conv_app_nth[symmetric])
  have cond: "(ir_done (ri_response ?ri2)
                \<and> ri_index ?ri2 = length (ir_results (ri_response ?ri2)))
              = (length ?es = 2 * ?F)"
    using r2 d2 ri k big by auto
  have a: "remote_iteration n peer tid shard f
           = Some (take ?F ?es, if length ?es = 2 * ?F then None else Some OutOfRange)"
  proof -
    have "remote_iteration n peer tid shard f
          = RemoteIterator_observed (k + Suc (Suc j)) peer1 ri []"
      using o n by simp
    also note s1
    also note s2
    also note s3
    finally show ?thesis unfolding seen cond .
  qed
  have l: "local_iteration t shard = Inr ?es" using v by (rule local_iteration_eq)
  have ne: "take ?F ?es \<noteq> ?es"
  proof
    assume "take ?F ?es = ?es"
    then have "length (take ?F ?es) = length ?es" by simp
    then show False using big by simp
  qed
  from a l ne show ?thesis by blast
qed

theorem RemoteIterator_stops_after_first_batch_witness:
  "remote_iteration 3 (demo_worker 1 1 None [(''a'', 1), (''b'', 2), (''c'', 3), (''d'', 4)]) 0 0 2
     = Some ([(''a'', 1), (''b'', 2)], None)
   \<and> local_iteration (demo_table 1 None [(''a'', 1), (''b'', 2), (''c'', 3), (''d'', 4)]) 0
     = Inr [(''a'', 1), (''b'', 2), (''c'', 3), (''d'', 4)]
   \<and> remote_iteration 3 (demo_worker 1 1 None [(''a'', 1), (''b'', 2), (''c'', 3)]) 0 0 2
     = Some ([(''a'', 1), (''b'', 2)], Some OutOfRange)
   \<and> local_iteration (demo_table 1 None [(''a'', 1), (''b'', 2), (''c'', 3)]) 0
     = Inr [(''a'', 1), (''b'', 2), (''c'', 3)]
   \<and> remote_iteration 1001 S4_peer 0 0 128 = Some (take 128 S4_entries, Some OutOfRange)
   \<and> local_iteration S4_table 0 = Inr S4_entries
   \<and> length S4_entries = 1000"
proof -
  let ?e4 = "[(''a'', 1 :: npy_int), (''b'', 2), (''c'', 3), (''d'', 4)]"
  let ?e3 = "[(''a'', 1 :: npy_int), (''b'', 2), (''c'', 3)]"
  have t4: "tables (demo_worker 1 1 None ?e4) 0 = Some (Some (demo_table 1 None ?e4))"
    and t3: "tables (demo_worker 1 1 None ?e3) 0 = Some (Some (demo_table 1 None ?e3))"
    and ts: "tables S4_peer 0 = Some (Some S4_table)"
    by (simp_all add: demo_worker_def S4_peer_def)
  have v4: "valid_shard (demo_table 1 None ?e4) 0" and v3: "valid_shard (demo_table 1 None ?e3) 0"
    and vs: "valid_shard S4_table 0"
    by (simp_all add: demo_table_def S4_table_def valid_shard_def)
  have i4: "current_iterator_id (demo_worker 1 1 None ?e4) \<noteq> - 1"
    and i3: "current_iterator_id (demo_worker 1 1 None ?e3) \<noteq> - 1"
    and i0: "current_iterator_id S4_peer \<noteq> - 1"
    by (simp_all add: demo_worker_def S4_peer_def)
  have p: "0 < unat (2 :: 32 word)" and ps: "0 < unat (128 :: 32 word)" by simp_all
  have b4: "unat (2 :: 32 word) < length (shards (demo_table 1 None ?e4) ! nat 0)"
    and b3: "unat (2 :: 32 word) < length (shards (demo_table 1 None ?e3) ! nat 0)"
    by (simp_all add: demo_table_def)
  have sh: "shards S4_table ! nat 0 = S4_entries" by (simp add: S4_table_def)
  have bs: "unat (128 :: 32 word) < length (shards S4_table ! nat 0)"
    unfolding sh length_S4_entries by simp
  have fl: "unat (2 :: 32 word) < 3" and fs: "unat (128 :: 32 word) < 1001" by simp_all
  have s4: "remote_iteration 1001 S4_peer 0 0 128 = Some (take 128 S4_entries, Some OutOfRange)
            \<and> local_iteration S4_table 0 = Inr S4_entries"
    using RemoteIterator_stops_after_first_batch[OF ts vs i0 ps bs fs]
    unfolding sh length_S4_entries by simp
  from RemoteIterator_stops_after_first_batch[OF t4 v4 i4 p b4 fl]
    RemoteIterator_stops_after_first_batch[OF t3 v3 i3 p b3 fl] s4 length_S4_entries
  show ?thesis by (simp add: demo_table_def)
qed

end
